theory Spec2Isabelle
  imports Complex_Main "HOL-Library.Word" "HOL-Library.Sublist"
begin

section \<open>JavaScript values used by the puzzle pages\<close>

text \<open>
  A JavaScript string is a sequence of 16-bit code units. ASCII literals of the source
  are written with \<open>ascii\<close>; the Chinese literals of the source are given by their
  code units. Numbers are modelled as mathematical integers: every number the modelled
  code computes is a millisecond time stamp or a count of seconds, and the model is exact
  as long as these stay below \<open>2 ^ 53\<close> in absolute value.
\<close>

type_synonym code_unit = "16 word"
type_synonym jsstring = "code_unit list"

definition ascii :: "string \<Rightarrow> jsstring" where
  "ascii s = map of_char s"

text \<open>White space and line terminators, as \<open>String.prototype.trim\<close> and \<open>parseInt\<close> skip them.\<close>

definition is_js_whitespace :: "code_unit \<Rightarrow> bool" where
  "is_js_whitespace c =
     (c = 0x09 \<or> c = 0x0A \<or> c = 0x0B \<or> c = 0x0C \<or> c = 0x0D \<or> c = 0x20 \<or> c = 0xA0
      \<or> c = 0x1680 \<or> (0x2000 \<le> c \<and> c \<le> 0x200A) \<or> c = 0x2028 \<or> c = 0x2029
      \<or> c = 0x202F \<or> c = 0x205F \<or> c = 0x3000 \<or> c = 0xFEFF)"

definition js_trimStart :: "jsstring \<Rightarrow> jsstring" where
  "js_trimStart s = dropWhile is_js_whitespace s"

definition js_trim :: "jsstring \<Rightarrow> jsstring" where
  "js_trim s = rev (dropWhile is_js_whitespace (rev (dropWhile is_js_whitespace s)))"

text \<open>\<open>s.split(sep)\<close> for a separator of one code unit; the empty string splits into one empty piece.\<close>

fun js_split :: "code_unit \<Rightarrow> jsstring \<Rightarrow> jsstring list" where
  "js_split sep [] = [[]]"
| "js_split sep (c # cs) =
     (if c = sep then [] # js_split sep cs
      else (case js_split sep cs of [] \<Rightarrow> [[c]] | p # ps \<Rightarrow> (c # p) # ps))"

text \<open>\<open>s.indexOf(p)\<close>: the first position where \<open>p\<close> occurs in \<open>s\<close>, or \<open>-1\<close>.\<close>

fun js_indexOf :: "jsstring \<Rightarrow> jsstring \<Rightarrow> int" where
  "js_indexOf [] p = (if p = [] then 0 else - 1)"
| "js_indexOf (c # cs) p =
     (if prefix p (c # cs) then 0
      else (let r = js_indexOf cs p in if r < 0 then - 1 else r + 1))"

definition js_substring :: "jsstring \<Rightarrow> nat \<Rightarrow> jsstring" where
  "js_substring s start = drop start s"

text \<open>\<open>a.join(sep)\<close>.\<close>

fun js_join :: "jsstring \<Rightarrow> jsstring list \<Rightarrow> jsstring" where
  "js_join sep [] = []"
| "js_join sep [p] = p"
| "js_join sep (p # q # ps) = p @ sep @ js_join sep (q # ps)"

subsection \<open>Numbers and strings\<close>

definition digit_unit :: "nat \<Rightarrow> code_unit" where
  "digit_unit d = 0x30 + of_nat d"

function nat_to_string :: "nat \<Rightarrow> jsstring" where
  "nat_to_string n =
     (if n < 10 then [digit_unit n] else nat_to_string (n div 10) @ [digit_unit (n mod 10)])"
  by pat_completeness auto
termination
  by (relation "measure id") auto

declare nat_to_string.simps [simp del]

text \<open>\<open>ToString\<close> of an integral number (the decimal form, used below \<open>10 ^ 21\<close>).\<close>

definition number_to_string :: "int \<Rightarrow> jsstring" where
  "number_to_string i =
     (if i < 0 then 0x2D # nat_to_string (nat (- i)) else nat_to_string (nat i))"

text \<open>The value of a code unit as a digit: \<open>0-9\<close>, \<open>a-z\<close> and \<open>A-Z\<close>.\<close>

definition digit_value :: "code_unit \<Rightarrow> nat option" where
  "digit_value c =
     (if 0x30 \<le> c \<and> c \<le> 0x39 then Some (unat c - 0x30)
      else if 0x61 \<le> c \<and> c \<le> 0x7A then Some (unat c - 0x61 + 10)
      else if 0x41 \<le> c \<and> c \<le> 0x5A then Some (unat c - 0x41 + 10)
      else None)"

definition is_radix_digit :: "nat \<Rightarrow> code_unit \<Rightarrow> bool" where
  "is_radix_digit r c = (case digit_value c of None \<Rightarrow> False | Some d \<Rightarrow> d < r)"

definition digits_value :: "nat \<Rightarrow> jsstring \<Rightarrow> nat" where
  "digits_value r z = foldl (\<lambda>acc c. acc * r + (case digit_value c of None \<Rightarrow> 0 | Some d \<Rightarrow> d)) 0 z"

text \<open>
  \<open>parseInt(string)\<close> with no radix: leading white space is skipped, a sign is read, a
  prefix \<open>0x\<close> or \<open>0X\<close> selects radix 16, and the longest run of digits is the value.
  \<open>None\<close> is \<open>NaN\<close>: no digit was found.
\<close>

definition parseInt :: "jsstring \<Rightarrow> int option" where
  "parseInt str =
     (let s = js_trimStart str;
          sign = (case s of [] \<Rightarrow> 1 | c # _ \<Rightarrow> if c = 0x2D then - 1 else (1 :: int));
          s1 = (case s of [] \<Rightarrow> s | c # r \<Rightarrow> if c = 0x2B \<or> c = 0x2D then r else s);
          hex = (case s1 of a # b # _ \<Rightarrow> a = 0x30 \<and> (b = 0x78 \<or> b = 0x58) | _ \<Rightarrow> False);
          radix = (if hex then 16 else 10);
          s2 = (if hex then drop 2 s1 else s1);
          z = takeWhile (is_radix_digit radix) s2
      in if z = [] then None else Some (sign * int (digits_value radix z)))"

text \<open>\<open>Math.ceil(x / 1000)\<close> for an integral \<open>x\<close>.\<close>

definition ceil_div_1000 :: "int \<Rightarrow> int" where
  "ceil_div_1000 x = - ((- x) div 1000)"

subsection \<open>Dates\<close>

text \<open>
  The time value of a \<open>Date\<close> is a number of milliseconds since the epoch, or \<open>NaN\<close>
  (\<open>None\<close>): \<open>setTime\<close> clips a value beyond 8.64e15 in absolute value to \<open>NaN\<close>. The
  calendar functions are those of the ECMAScript specification (\<open>Day\<close>, \<open>DayFromYear\<close>,
  \<open>YearFromTime\<close>, \<open>MonthFromTime\<close>, \<open>DateFromTime\<close>, \<open>WeekDay\<close>).
\<close>

definition msPerDay :: int where
  "msPerDay = 86400000"

definition TimeClip :: "int \<Rightarrow> int option" where
  "TimeClip t = (if \<bar>t\<bar> \<le> 8640000000000000 then Some t else None)"

definition Day :: "int \<Rightarrow> int" where
  "Day t = t div msPerDay"

definition DayFromYear :: "int \<Rightarrow> int" where
  "DayFromYear y = 365 * (y - 1970) + (y - 1969) div 4 - (y - 1901) div 100 + (y - 1601) div 400"

definition InLeapYear :: "int \<Rightarrow> bool" where
  "InLeapYear y = (y mod 4 = 0 \<and> (y mod 100 \<noteq> 0 \<or> y mod 400 = 0))"

lemma int_div_step:
  fixes a k :: int
  assumes k: "0 < k"
  shows "(a + 1) div k = a div k + (if (a + 1) mod k = 0 then 1 else 0)"
proof (cases "a mod k = k - 1")
  case True
  have "a = a div k * k + (k - 1)"
    using True div_mult_mod_eq [of a k] by simp
  then have "a + 1 = k * (a div k + 1) + 0"
    by (simp add: algebra_simps)
  then have "(a + 1) div k = a div k + 1" and "(a + 1) mod k = 0"
    using k int_div_pos_eq [of "a + 1" k "a div k + 1" 0] int_mod_pos_eq [of "a + 1" k "a div k + 1" 0]
    by simp_all
  then show ?thesis by simp
next
  case False
  have "a mod k < k" "0 \<le> a mod k"
    using k by simp_all
  with False have r: "0 \<le> a mod k + 1" "a mod k + 1 < k"
    by auto
  have "a + 1 = k * (a div k) + (a mod k + 1)"
    using div_mult_mod_eq [of a k] by (simp add: algebra_simps)
  then have "(a + 1) div k = a div k" and "(a + 1) mod k = a mod k + 1"
    using r int_div_pos_eq [of "a + 1" k "a div k" "a mod k + 1"]
      int_mod_pos_eq [of "a + 1" k "a div k" "a mod k + 1"]
    by simp_all
  with r \<open>0 \<le> a mod k\<close> show ?thesis by simp
qed

lemma mod_shift_mult: "(y - k * c) mod k = y mod k" for y k c :: int
proof -
  have "y - k * c = y + k * (- c)" by simp
  then show ?thesis by (simp only: mod_mult_self2)
qed

lemma DayFromYear_Suc:
  "DayFromYear (y + 1) = DayFromYear y + 365 + (if InLeapYear y then 1 else 0)"
proof -
  have m1: "(y - 1968) mod 4 = 0 \<longleftrightarrow> y mod 4 = 0"
    using mod_shift_mult [of y 4 492] by simp
  have m2: "(y - 1900) mod 100 = 0 \<longleftrightarrow> y mod 100 = 0"
    using mod_shift_mult [of y 100 19] by simp
  have m3: "(y - 1600) mod 400 = 0 \<longleftrightarrow> y mod 400 = 0"
    using mod_shift_mult [of y 400 4] by simp
  have m4: "y mod 400 = 0 \<Longrightarrow> y mod 100 = 0"
    using mod_mod_cancel [of 100 400 y] by simp
  have m5: "y mod 100 = 0 \<Longrightarrow> y mod 4 = 0"
    using mod_mod_cancel [of 4 100 y] by simp
  have a: "(y + 1 - 1969) div 4 = (y - 1969) div 4 + (if y mod 4 = 0 then 1 else 0)"
    using int_div_step [of 4 "y - 1969"] m1 by (simp add: algebra_simps)
  have b: "(y + 1 - 1901) div 100 = (y - 1901) div 100 + (if y mod 100 = 0 then 1 else 0)"
    using int_div_step [of 100 "y - 1901"] m2 by (simp add: algebra_simps)
  have c: "(y + 1 - 1601) div 400 = (y - 1601) div 400 + (if y mod 400 = 0 then 1 else 0)"
    using int_div_step [of 400 "y - 1601"] m3 by (simp add: algebra_simps)
  show ?thesis
    unfolding DayFromYear_def InLeapYear_def a b c using m4 m5
    by (cases "y mod 4 = 0"; cases "y mod 100 = 0"; cases "y mod 400 = 0") simp_all
qed

text \<open>The largest year that starts on or before day \<open>d\<close>, searched upwards from a year that
  starts no later than \<open>d\<close>.\<close>

function year_search :: "int \<Rightarrow> int \<Rightarrow> int" where
  "year_search y d = (if DayFromYear (y + 1) \<le> d then year_search (y + 1) d else y)"
  by pat_completeness auto
termination
  by (relation "measure (\<lambda>(y, d). nat (d - DayFromYear y))")
    (auto simp: DayFromYear_Suc split: if_splits)

declare year_search.simps [simp del]

definition YearFromDay :: "int \<Rightarrow> int" where
  "YearFromDay d = year_search (1970 + (if 0 \<le> d then d div 366 else d div 365)) d"

definition leap_days :: "int \<Rightarrow> int" where
  "leap_days y = (if InLeapYear y then 1 else 0)"

text \<open>The day within the year on which month \<open>m\<close> (0 to 11) starts.\<close>

definition month_start :: "int \<Rightarrow> nat \<Rightarrow> int" where
  "month_start y m =
     (if m = 0 then 0 else if m = 1 then 31
      else [59, 90, 120, 151, 181, 212, 243, 273, 304, 334] ! (m - 2) + leap_days y)"

definition MonthFromDay :: "int \<Rightarrow> int \<Rightarrow> nat" where
  "MonthFromDay y diy =
     (if diy < month_start y 1 then 0 else if diy < month_start y 2 then 1
      else if diy < month_start y 3 then 2 else if diy < month_start y 4 then 3
      else if diy < month_start y 5 then 4 else if diy < month_start y 6 then 5
      else if diy < month_start y 7 then 6 else if diy < month_start y 8 then 7
      else if diy < month_start y 9 then 8 else if diy < month_start y 10 then 9
      else if diy < month_start y 11 then 10 else 11)"

definition day_names :: "jsstring list" where
  "day_names = map ascii [''Sun'', ''Mon'', ''Tue'', ''Wed'', ''Thu'', ''Fri'', ''Sat'']"

definition month_names :: "jsstring list" where
  "month_names = map ascii [''Jan'', ''Feb'', ''Mar'', ''Apr'', ''May'', ''Jun'',
     ''Jul'', ''Aug'', ''Sep'', ''Oct'', ''Nov'', ''Dec'']"

definition pad2 :: "nat \<Rightarrow> jsstring" where
  "pad2 n = [digit_unit (n div 10 mod 10), digit_unit (n mod 10)]"

text \<open>The year of a date string: at least four digits, with a minus sign before year 0.\<close>

definition year_string :: "int \<Rightarrow> jsstring" where
  "year_string y =
     (let ds = nat_to_string (nat \<bar>y\<bar>)
      in (if y < 0 then ascii ''-'' else []) @ replicate (4 - length ds) 0x30 @ ds)"

text \<open>\<open>Date.prototype.toUTCString\<close>, as in \<open>Thu, 01 Jan 1970 00:00:00 GMT\<close>.\<close>

definition toUTCString :: "int option \<Rightarrow> jsstring" where
  "toUTCString tv =
     (case tv of
        None \<Rightarrow> ascii ''Invalid Date''
      | Some t \<Rightarrow>
          (let d = Day t; y = YearFromDay d; diy = d - DayFromYear y; m = MonthFromDay y diy;
               date = nat (diy - month_start y m + 1);
               secs = nat ((t mod msPerDay) div 1000)
           in day_names ! nat ((d + 4) mod 7) @ ascii '', '' @ pad2 date @ ascii '' ''
              @ month_names ! m @ ascii '' '' @ year_string y @ ascii '' ''
              @ pad2 (secs div 3600) @ ascii '':'' @ pad2 (secs div 60 mod 60) @ ascii '':''
              @ pad2 (secs mod 60) @ ascii '' GMT''))"

section \<open>The browser\<close>

text \<open>
  The cookie store of the document, after RFC 6265: a list of cookies in the order of
  their creation, each with a name, a value and an expiry time in milliseconds since the
  epoch (none for a session cookie). Every cookie the modelled code writes has the path
  \<open>/\<close>, so the path is not stored.
\<close>

record cookie =
  ck_name :: jsstring
  ck_value :: jsstring
  ck_expires :: "int option"

datatype log_entry = ConsoleLog jsstring | ConsoleWarn jsstring | ConsoleError jsstring

datatype timer_kind = Interval | Timeout

text \<open>The two closures that \<open>startFrontendCooldownTimers\<close> hands to the timer functions;
  \<open>UpdateTimerDisplay\<close> carries the current value of its variable \<open>countdown\<close>.\<close>

datatype timer_callback = UpdateTimerDisplay int | CooldownEnd

record timer =
  tm_id :: nat
  tm_kind :: timer_kind
  tm_callback :: timer_callback
  tm_delay :: int

text \<open>The functions that callers pass in; the model records each call and leaves the
  effects of the callee out.\<close>

datatype callback = OnSuccess | OnCooldownEnd

record browser =
  clock :: int
  cookies :: "cookie list"
  localStorage :: "jsstring \<Rightarrow> jsstring option"
  console :: "log_entry list"
  timers :: "timer list"
  next_timer_id :: nat
  invoked :: "callback list"

text \<open>\<open>setInterval\<close> and \<open>setTimeout\<close> return a fresh handle; \<open>clearInterval\<close> and
  \<open>clearTimeout\<close> share one pool of handles and ignore \<open>null\<close> and unknown handles.\<close>

definition set_timer :: "timer_kind \<Rightarrow> timer_callback \<Rightarrow> int \<Rightarrow> browser \<Rightarrow> nat \<times> browser" where
  "set_timer k cb delay b =
     (next_timer_id b,
      b\<lparr>timers := timers b @ [\<lparr>tm_id = next_timer_id b, tm_kind = k, tm_callback = cb, tm_delay = delay\<rparr>],
        next_timer_id := Suc (next_timer_id b)\<rparr>)"

definition clear_timer :: "nat option \<Rightarrow> browser \<Rightarrow> browser" where
  "clear_timer h b =
     (case h of None \<Rightarrow> b | Some i \<Rightarrow> b\<lparr>timers := filter (\<lambda>t. tm_id t \<noteq> i) (timers b)\<rparr>)"

text \<open>A handle is a number, truthy unless it is 0; \<open>null\<close> is falsy.\<close>

definition handle_truthy :: "nat option \<Rightarrow> bool" where
  "handle_truthy h = (case h of None \<Rightarrow> False | Some i \<Rightarrow> i \<noteq> 0)"

subsection \<open>Writing \<open>document.cookie\<close>\<close>

text \<open>
  Assigning a string to \<open>document.cookie\<close> runs the algorithm of RFC 6265, sections 5.2 and
  5.3: the text before the first \<open>;\<close> is the name-value pair, split at its first \<open>=\<close>, with
  spaces and tabs trimmed from both parts; the string is ignored when it has no \<open>=\<close> or an
  empty name. Of the attributes only \<open>Expires\<close> is interpreted here (the modelled code writes
  no other attribute but \<open>path=/\<close>). A date is read in the fixed-length form of RFC 1123,
  which is what \<open>toUTCString\<close> produces; an attribute whose date cannot be read is ignored,
  which leaves a session cookie.
\<close>

definition is_wsp :: "code_unit \<Rightarrow> bool" where
  "is_wsp c = (c = 0x20 \<or> c = 0x09)"

definition wsp_trim :: "jsstring \<Rightarrow> jsstring" where
  "wsp_trim s = rev (dropWhile is_wsp (rev (dropWhile is_wsp s)))"

definition ascii_lower :: "code_unit \<Rightarrow> code_unit" where
  "ascii_lower c = (if 0x41 \<le> c \<and> c \<le> 0x5A then c + 0x20 else c)"

definition split_at_first :: "code_unit \<Rightarrow> jsstring \<Rightarrow> jsstring \<times> jsstring option" where
  "split_at_first sep s =
     (takeWhile (\<lambda>c. c \<noteq> sep) s,
      case dropWhile (\<lambda>c. c \<noteq> sep) s of [] \<Rightarrow> None | _ # r \<Rightarrow> Some r)"

definition decimal :: "jsstring \<Rightarrow> nat option" where
  "decimal ds = (if list_all (is_radix_digit 10) ds then Some (digits_value 10 ds) else None)"

fun index_of :: "'a \<Rightarrow> 'a list \<Rightarrow> nat option" where
  "index_of x [] = None"
| "index_of x (y # ys) = (if x = y then Some 0 else map_option Suc (index_of x ys))"

definition month_index :: "jsstring \<Rightarrow> nat option" where
  "month_index s = index_of (map ascii_lower s) (map (map ascii_lower) month_names)"

definition cookie_date_value ::
    "nat option \<Rightarrow> nat option \<Rightarrow> nat option \<Rightarrow> nat option \<Rightarrow> nat option \<Rightarrow> nat option \<Rightarrow> int option" where
  "cookie_date_value dd mo yv hh mi ss =
     (case (dd, mo, yv, hh, mi, ss) of
        (Some dd, Some mo, Some yv, Some hh, Some mi, Some ss) \<Rightarrow>
          (let yr = int (if 70 \<le> yv \<and> yv \<le> 99 then yv + 1900 else if yv \<le> 69 then yv + 2000 else yv)
           in if 1 \<le> dd \<and> dd \<le> 31 \<and> 1601 \<le> yr \<and> hh \<le> 23 \<and> mi \<le> 59 \<and> ss \<le> 59
              then Some ((DayFromYear yr + month_start yr mo + int dd - 1) * msPerDay
                         + (int hh * 3600 + int mi * 60 + int ss) * 1000)
              else None)
      | _ \<Rightarrow> None)"

definition parse_cookie_date :: "jsstring \<Rightarrow> int option" where
  "parse_cookie_date s =
     (if length s \<noteq> 29 then None
      else (case s of
        [w1, w2, w3, c1, c2, d1, d2, c3, m1, m2, m3, c4, y1, y2, y3, y4, c5,
         h1, h2, c6, n1, n2, c7, s1, s2, c8, z1, z2, z3] \<Rightarrow>
          if c1 = 0x2C \<and> c2 = 0x20 \<and> c3 = 0x20 \<and> c4 = 0x20 \<and> c5 = 0x20 \<and> c6 = 0x3A
             \<and> c7 = 0x3A \<and> c8 = 0x20
          then cookie_date_value (decimal [d1, d2]) (month_index [m1, m2, m3])
                 (decimal [y1, y2, y3, y4]) (decimal [h1, h2]) (decimal [n1, n2]) (decimal [s1, s2])
          else None
      | _ \<Rightarrow> None))"

text \<open>The expiry time of a list of attributes: the last \<open>Expires\<close> attribute with a readable date.\<close>

definition av_expires :: "jsstring \<Rightarrow> int option" where
  "av_expires av =
     (case split_at_first 0x3D av of
        (n, v) \<Rightarrow>
          if map ascii_lower (wsp_trim n) = ascii ''expires''
          then parse_cookie_date (wsp_trim (case v of None \<Rightarrow> [] | Some x \<Rightarrow> x))
          else None)"

fun expires_of :: "jsstring list \<Rightarrow> int option" where
  "expires_of [] = None"
| "expires_of (av # avs) =
     (case expires_of avs of Some e \<Rightarrow> Some e | None \<Rightarrow> av_expires av)"

text \<open>A cookie replaces the stored cookie of its name, in that cookie's place; a new name goes
  to the end.\<close>

fun store_cookie :: "cookie \<Rightarrow> cookie list \<Rightarrow> cookie list" where
  "store_cookie c [] = [c]"
| "store_cookie c (x # xs) = (if ck_name x = ck_name c then c # xs else x # store_cookie c xs)"

definition cookie_expired :: "int \<Rightarrow> cookie \<Rightarrow> bool" where
  "cookie_expired now c = (case ck_expires c of None \<Rightarrow> False | Some e \<Rightarrow> e \<le> now)"

definition cookie_pair :: "cookie \<Rightarrow> jsstring" where
  "cookie_pair c = ck_name c @ ascii ''='' @ ck_value c"

text \<open>Reading \<open>document.cookie\<close>: the cookies that have not expired, joined by \<open>"; "\<close>.\<close>

definition document_cookie :: "browser \<Rightarrow> jsstring" where
  "document_cookie b =
     js_join (ascii ''; '')
       (map cookie_pair (filter (\<lambda>c. \<not> cookie_expired (clock b) c) (cookies b)))"

text \<open>The assignment \<open>document.cookie = s\<close>.\<close>

definition document_cookie_assign :: "jsstring \<Rightarrow> browser \<Rightarrow> browser" where
  "document_cookie_assign s b =
     (case split_at_first 0x3B s of
        (nvp, rest) \<Rightarrow>
          (case split_at_first 0x3D nvp of
             (n, None) \<Rightarrow> b
           | (n, Some v) \<Rightarrow>
               if wsp_trim n = [] then b
               else (let c = \<lparr>ck_name = wsp_trim n, ck_value = wsp_trim v,
                               ck_expires = expires_of (case rest of None \<Rightarrow> [] | Some r \<Rightarrow> js_split 0x3B r)\<rparr>
                     in b\<lparr>cookies := filter (\<lambda>x. \<not> cookie_expired (clock b) x)
                                      (store_cookie c (cookies b))\<rparr>)))"

section \<open>Cookie module\<close>

text \<open>\<open>setCookie(name, value, seconds)\<close>: \<open>new Date()\<close> holds the current time, \<open>setTime\<close>
  moves it by \<open>seconds * 1000\<close>, and the template literal is assigned to \<open>document.cookie\<close>.\<close>

definition setCookie_text :: "jsstring \<Rightarrow> jsstring \<Rightarrow> int \<Rightarrow> int \<Rightarrow> jsstring" where
  "setCookie_text name val seconds now =
     (let date = TimeClip (now + seconds * 1000)
      in name @ ascii ''='' @ val @ ascii '';expires='' @ toUTCString date @ ascii '';path=/'')"

definition setCookie :: "jsstring \<Rightarrow> jsstring \<Rightarrow> int \<Rightarrow> browser \<Rightarrow> browser" where
  "setCookie name val seconds b =
     document_cookie_assign (setCookie_text name val seconds (clock b)) b"

definition deleteCookie :: "jsstring \<Rightarrow> browser \<Rightarrow> browser" where
  "deleteCookie name b =
     document_cookie_assign (name @ ascii ''=;expires=Thu, 01 Jan 1970 00:00:00 UTC;path=/'') b"

fun getCookie_loop :: "jsstring \<Rightarrow> jsstring list \<Rightarrow> jsstring option" where
  "getCookie_loop nameEQ [] = None"
| "getCookie_loop nameEQ (c # cs) =
     (let cookie = js_trim c
      in if js_indexOf cookie nameEQ = 0 then Some (js_substring cookie (length nameEQ))
         else getCookie_loop nameEQ cs)"

text \<open>\<open>getCookie(name)\<close>; \<open>None\<close> is \<open>null\<close>.\<close>

definition getCookie :: "jsstring \<Rightarrow> browser \<Rightarrow> jsstring option" where
  "getCookie name b =
     (let nameEQ = name @ ascii ''='';
          cookies = js_split 0x3B (document_cookie b)
      in getCookie_loop nameEQ cookies)"

subsection \<open>The texts of the source, as code units\<close>

definition txt_verify :: jsstring where
  "txt_verify = [0x9A8C, 0x8BC1]"

definition txt_verifying :: jsstring where
  "txt_verifying = [0x9A8C, 0x8BC1, 0x4E2D, 0x002E, 0x002E, 0x002E]"

definition txt_please_wait :: jsstring where
  "txt_please_wait = [0x8BF7, 0x7B49, 0x5F85, 0x002E, 0x002E, 0x002E]"

definition txt_wrong_wait_prefix :: jsstring where
  "txt_wrong_wait_prefix = [0x5BC6, 0x7801, 0x9519, 0x8BEF, 0xFF01, 0x8BF7, 0x7B49, 0x5F85, 0x0020]"

definition txt_wrong_wait_suffix :: jsstring where
  "txt_wrong_wait_suffix = [0x0020, 0x79D2, 0x002E, 0x002E, 0x002E]"

definition txt_hold_on :: jsstring where
  "txt_hold_on = [0x8BF7, 0x7A0D, 0x5019, 0x002E, 0x002E, 0x002E]"

definition txt_enter_key :: jsstring where
  "txt_enter_key = [0x8BF7, 0x8F93, 0x5165, 0x5BC6, 0x94A5, 0x3002]"

definition txt_key_correct :: jsstring where
  "txt_key_correct = [0x5BC6, 0x94A5, 0x6B63, 0x786E]"

definition txt_key_wrong :: jsstring where
  "txt_key_wrong = [0x5BC6, 0x94A5, 0x9519, 0x8BEF]"

definition log_load_failed :: jsstring where
  "log_load_failed = [0x52A0, 0x8F7D, 0x89E3, 0x9501, 0x72B6, 0x6001, 0x5931, 0x8D25, 0x003A]"

definition log_password_ok :: jsstring where
  "log_password_ok = [0x5BC6, 0x7801, 0x6B63, 0x786E, 0xFF01]"

definition log_password_bad :: jsstring where
  "log_password_bad = [0x5BC6, 0x7801, 0x9519, 0x8BEF, 0xFF01]"

definition log_keys_failed :: jsstring where
  "log_keys_failed = [0x52A0, 0x8F7D, 0x0020, 0x006B, 0x0065, 0x0079, 0x0073, 0x002E, 0x006A, 0x0073, 0x006F, 0x006E, 0x0020, 0x51FA, 0x9519, 0x003A]"

subsection \<open>Names and values that a cookie can carry\<close>

text \<open>
  A name can be stored and found again when it is not empty, has no \<open>;\<close> and no \<open>=\<close>, and
  has no white space at either end; a value when it has no \<open>;\<close> and no white space at
  either end. A cookie store is in order when every name in it is such a name, no value has
  a \<open>;\<close>, and no name occurs twice. \<open>stored_value\<close> is the value that the store holds for
  a name.
\<close>

definition js_trimEnd :: "jsstring \<Rightarrow> jsstring" where
  "js_trimEnd s = rev (dropWhile is_js_whitespace (rev s))"

definition cookie_name_ok :: "jsstring \<Rightarrow> bool" where
  "cookie_name_ok n = (n \<noteq> [] \<and> 0x3B \<notin> set n \<and> 0x3D \<notin> set n \<and> js_trim n = n)"

definition cookie_value_ok :: "jsstring \<Rightarrow> bool" where
  "cookie_value_ok v = (0x3B \<notin> set v \<and> js_trim v = v)"

definition jar_ok :: "cookie list \<Rightarrow> bool" where
  "jar_ok cs =
     (list_all (\<lambda>c. cookie_name_ok (ck_name c) \<and> 0x3B \<notin> set (ck_value c)) cs
      \<and> distinct (map ck_name cs))"

definition stored_value :: "jsstring \<Rightarrow> browser \<Rightarrow> jsstring option" where
  "stored_value name b =
     map_option ck_value
       (find (\<lambda>c. ck_name c = name) (filter (\<lambda>c. \<not> cookie_expired (clock b) c) (cookies b)))"

section \<open>Cooldown manager\<close>

record element =
  el_disabled :: bool
  el_textContent :: jsstring
  el_value :: jsstring
  el_classList :: "jsstring list"
  el_borderColor :: jsstring
  el_backgroundColor :: jsstring

record CooldownManager =
  cookieName :: jsstring
  cooldownSeconds :: int
  inputElement :: element
  buttonElement :: element
  errorElement :: element
  formElement :: element
  buttonDefaultText :: jsstring
  buttonLoadingText :: jsstring
  activeCooldownTimer :: "nat option"
  activeCooldownTimeout :: "nat option"

record cooldown_status =
  cooldown :: bool
  remaining :: int

text \<open>\<open>checkCooldown()\<close>. A string is truthy when it is not empty; \<open>now < NaN\<close> is false.\<close>

definition checkCooldown :: "CooldownManager \<Rightarrow> browser \<Rightarrow> cooldown_status" where
  "checkCooldown m b =
     (case getCookie (cookieName m) b of
        None \<Rightarrow> \<lparr>cooldown = False, remaining = 0\<rparr>
      | Some expiryTime \<Rightarrow>
          if expiryTime = [] then \<lparr>cooldown = False, remaining = 0\<rparr>
          else (let now = clock b in
                case parseInt expiryTime of
                  None \<Rightarrow> \<lparr>cooldown = False, remaining = 0\<rparr>
                | Some e \<Rightarrow>
                    if now < e then \<lparr>cooldown = True, remaining = ceil_div_1000 (e - now)\<rparr>
                    else \<lparr>cooldown = False, remaining = 0\<rparr>))"

definition setCooldown :: "CooldownManager \<Rightarrow> browser \<Rightarrow> browser" where
  "setCooldown m b =
     (let expiryTime = clock b + cooldownSeconds m * 1000
      in setCookie (cookieName m) (number_to_string expiryTime) (cooldownSeconds m) b)"

definition clearCooldown :: "CooldownManager \<Rightarrow> browser \<Rightarrow> browser" where
  "clearCooldown m b = deleteCookie (cookieName m) b"

definition cooldown_active :: jsstring where
  "cooldown_active = ascii ''cooldown-active''"

definition classList_add :: "jsstring \<Rightarrow> jsstring list \<Rightarrow> jsstring list" where
  "classList_add c cl = (if c \<in> set cl then cl else cl @ [c])"

definition classList_remove :: "jsstring \<Rightarrow> jsstring list \<Rightarrow> jsstring list" where
  "classList_remove c cl = filter (\<lambda>x. x \<noteq> c) cl"

definition classList_contains :: "jsstring \<Rightarrow> jsstring list \<Rightarrow> bool" where
  "classList_contains c cl = (c \<in> set cl)"

text \<open>The methods below change the manager and the browser; both are passed and returned.
  The four elements of a manager are taken to be four different elements of the page.\<close>

definition clearCooldownState :: "bool \<Rightarrow> CooldownManager \<times> browser \<Rightarrow> CooldownManager \<times> browser" where
  "clearCooldownState forceClearMessage mb =
     (case mb of (m, b) \<Rightarrow>
        (let (m1, b1) = (if handle_truthy (activeCooldownTimer m)
                         then (m\<lparr>activeCooldownTimer := None\<rparr>, clear_timer (activeCooldownTimer m) b)
                         else (m, b));
             (m2, b2) = (if handle_truthy (activeCooldownTimeout m1)
                         then (m1\<lparr>activeCooldownTimeout := None\<rparr>, clear_timer (activeCooldownTimeout m1) b1)
                         else (m1, b1));
             m3 = m2\<lparr>formElement := (formElement m2)
                        \<lparr>el_classList := classList_remove cooldown_active (el_classList (formElement m2))\<rparr>,
                     inputElement := (inputElement m2)\<lparr>el_disabled := False\<rparr>,
                     buttonElement := (buttonElement m2)
                        \<lparr>el_disabled := False, el_textContent := buttonDefaultText m2\<rparr>\<rparr>;
             m4 = (if forceClearMessage
                   then m3\<lparr>errorElement := (errorElement m3)\<lparr>el_textContent := []\<rparr>\<rparr> else m3)
         in (m4, b2)))"

text \<open>The closure \<open>updateTimerDisplay\<close>; its variable \<open>countdown\<close> is passed and returned.\<close>

definition updateTimerDisplay :: "int \<Rightarrow> CooldownManager \<times> browser \<Rightarrow> int \<times> CooldownManager \<times> browser" where
  "updateTimerDisplay countdown mb =
     (case mb of (m, b) \<Rightarrow>
        if classList_contains cooldown_active (el_classList (formElement m)) then
          if countdown > 0
          then (countdown - 1,
                m\<lparr>errorElement := (errorElement m)
                    \<lparr>el_textContent := txt_wrong_wait_prefix @ number_to_string countdown @ txt_wrong_wait_suffix\<rparr>\<rparr>,
                b)
          else (countdown,
                m\<lparr>errorElement := (errorElement m)\<lparr>el_textContent := txt_hold_on\<rparr>,
                  activeCooldownTimer := None\<rparr>,
                clear_timer (activeCooldownTimer m) b)
        else (countdown, m\<lparr>activeCooldownTimer := None\<rparr>, clear_timer (activeCooldownTimer m) b))"

definition startFrontendCooldownTimers :: "int \<Rightarrow> CooldownManager \<times> browser \<Rightarrow> CooldownManager \<times> browser" where
  "startFrontendCooldownTimers remaining_secs mb =
     (case mb of (m, b) \<Rightarrow>
        (let m1 = m\<lparr>inputElement := (inputElement m)\<lparr>el_disabled := True\<rparr>,
                    buttonElement := (buttonElement m)\<lparr>el_disabled := True, el_textContent := txt_please_wait\<rparr>,
                    formElement := (formElement m)
                      \<lparr>el_classList := classList_add cooldown_active (el_classList (formElement m))\<rparr>\<rparr>;
             countdown = remaining_secs;
             b1 = (if handle_truthy (activeCooldownTimer m1) then clear_timer (activeCooldownTimer m1) b else b);
             b2 = (if handle_truthy (activeCooldownTimeout m1) then clear_timer (activeCooldownTimeout m1) b1 else b1);
             (countdown1, m2, b3) = updateTimerDisplay countdown (m1, b2);
             (i, b4) = set_timer Interval (UpdateTimerDisplay countdown1) 1000 b3;
             m3 = m2\<lparr>activeCooldownTimer := Some i\<rparr>;
             (j, b5) = set_timer Timeout CooldownEnd (remaining_secs * 1000) b4
         in (m3\<lparr>activeCooldownTimeout := Some j\<rparr>, b5)))"

definition setVerifyingState :: "CooldownManager \<times> browser \<Rightarrow> CooldownManager \<times> browser" where
  "setVerifyingState mb =
     (case mb of (m, b) \<Rightarrow>
        (let m1 = m\<lparr>buttonElement := (buttonElement m)\<lparr>el_disabled := True, el_textContent := buttonLoadingText m\<rparr>,
                    inputElement := (inputElement m)\<lparr>el_disabled := True\<rparr>,
                    errorElement := (errorElement m)\<lparr>el_textContent := []\<rparr>,
                    formElement := (formElement m)
                      \<lparr>el_classList := classList_remove cooldown_active (el_classList (formElement m))\<rparr>\<rparr>;
             b1 = (if handle_truthy (activeCooldownTimer m1) then clear_timer (activeCooldownTimer m1) b else b);
             m2 = m1\<lparr>activeCooldownTimer := None\<rparr>;
             b2 = (if handle_truthy (activeCooldownTimeout m2) then clear_timer (activeCooldownTimeout m2) b1 else b1)
         in (m2\<lparr>activeCooldownTimeout := None\<rparr>, b2)))"

text \<open>The constructor: the two button texts fall back to the defaults of the source when
  the option is missing or empty; both timer handles start as \<open>null\<close>.\<close>

record CooldownManager_options =
  opt_cookieName :: jsstring
  opt_cooldownSeconds :: int
  opt_inputElement :: element
  opt_buttonElement :: element
  opt_errorElement :: element
  opt_formElement :: element
  opt_buttonDefaultText :: "jsstring option"
  opt_buttonLoadingText :: "jsstring option"

definition or_default :: "jsstring option \<Rightarrow> jsstring \<Rightarrow> jsstring" where
  "or_default v d = (case v of None \<Rightarrow> d | Some t \<Rightarrow> if t = [] then d else t)"

definition new_CooldownManager :: "CooldownManager_options \<Rightarrow> CooldownManager" where
  "new_CooldownManager options =
     \<lparr>cookieName = opt_cookieName options,
      cooldownSeconds = opt_cooldownSeconds options,
      inputElement = opt_inputElement options,
      buttonElement = opt_buttonElement options,
      errorElement = opt_errorElement options,
      formElement = opt_formElement options,
      buttonDefaultText = or_default (opt_buttonDefaultText options) txt_verify,
      buttonLoadingText = or_default (opt_buttonLoadingText options) txt_verifying,
      activeCooldownTimer = None,
      activeCooldownTimeout = None\<rparr>"

section \<open>Password check\<close>

text \<open>\<open>verifyPassword(inputPassword, correctPassword, cooldownManager, onSuccess)\<close>; both
  passwords are strings, and a string is falsy when it is empty.\<close>

definition verifyPassword :: "jsstring \<Rightarrow> jsstring \<Rightarrow> CooldownManager \<times> browser \<Rightarrow> CooldownManager \<times> browser" where
  "verifyPassword inputPassword correctPassword mb =
     (case mb of (m, b) \<Rightarrow>
        if inputPassword = []
        then (m\<lparr>errorElement := (errorElement m)\<lparr>el_textContent := txt_enter_key\<rparr>,
                buttonElement := (buttonElement m)\<lparr>el_disabled := False\<rparr>,
                inputElement := (inputElement m)\<lparr>el_disabled := False\<rparr>\<rparr>, b)
        else (case setVerifyingState (m, b) of (m1, b1) \<Rightarrow>
          if inputPassword = correctPassword
          then (case clearCooldownState True (m1, b1\<lparr>console := console b1 @ [ConsoleLog log_password_ok]\<rparr>) of
                  (m2, b2) \<Rightarrow>
                    (let b3 = clearCooldown m2 b2
                     in (m2, b3\<lparr>invoked := invoked b3 @ [OnSuccess]\<rparr>)))
          else (let b2 = b1\<lparr>console := console b1 @ [ConsoleLog log_password_bad]\<rparr>;
                    m2 = m1\<lparr>inputElement := (inputElement m1)\<lparr>el_value := []\<rparr>\<rparr>;
                    b3 = setCooldown m2 b2;
                    cooldownStatus = checkCooldown m2 b3;
                    m3 = m2\<lparr>errorElement := (errorElement m2)
                           \<lparr>el_textContent := txt_wrong_wait_prefix
                              @ number_to_string (remaining cooldownStatus) @ txt_wrong_wait_suffix\<rparr>\<rparr>
                in startFrontendCooldownTimers (remaining cooldownStatus) (m3, b3))))"

section \<open>Unlock state in local storage\<close>

text \<open>
  \<open>JSON.parse\<close> and \<open>JSON.stringify\<close> are built into the JavaScript engine and are
  parameters here, over any type of states: \<open>JSON_parse\<close> gives \<open>None\<close> where the built-in
  raises a \<open>SyntaxError\<close>, \<open>JSON_stringify\<close> gives \<open>None\<close> where it raises a \<open>TypeError\<close>
  (a cyclic value). Local storage is a map from keys to strings; \<open>getItem\<close> of a missing
  key is \<open>null\<close>. A full storage, where \<open>setItem\<close> raises, is not modelled.
\<close>

datatype js_error = TypeError

definition loadUnlockedState ::
    "(jsstring \<Rightarrow> 'v option) \<Rightarrow> jsstring \<Rightarrow> 'v \<Rightarrow> browser \<Rightarrow> 'v \<times> browser" where
  "loadUnlockedState JSON_parse key defaultValue b =
     (case localStorage b key of
        None \<Rightarrow> (defaultValue, b)
      | Some saved \<Rightarrow>
          if saved = [] then (defaultValue, b)
          else (case JSON_parse saved of
                  Some v \<Rightarrow> (v, b)
                | None \<Rightarrow> (defaultValue, b\<lparr>console := console b @ [ConsoleError log_load_failed]\<rparr>)))"

definition saveUnlockedState ::
    "('v \<Rightarrow> jsstring option) \<Rightarrow> jsstring \<Rightarrow> 'v \<Rightarrow> browser \<Rightarrow> js_error + browser" where
  "saveUnlockedState JSON_stringify key state b =
     (case JSON_stringify state of
        None \<Rightarrow> Inl TypeError
      | Some text \<Rightarrow> Inr (b\<lparr>localStorage := (localStorage b)(key \<mapsto> text)\<rparr>))"

text \<open>An instance of the two parameters, for the arrays of booleans that the puzzle pages
  keep as unlock flags: \<open>[true,false]\<close>.\<close>

definition stringify_flags :: "bool list \<Rightarrow> jsstring option" where
  "stringify_flags fs =
     Some (ascii ''['' @ js_join (ascii '','') (map (\<lambda>f. ascii (if f then ''true'' else ''false'')) fs)
           @ ascii '']'')"

definition parse_flag :: "jsstring \<Rightarrow> bool option" where
  "parse_flag p =
     (if js_trim p = ascii ''true'' then Some True
      else if js_trim p = ascii ''false'' then Some False else None)"

definition parse_flags :: "jsstring \<Rightarrow> bool list option" where
  "parse_flags s =
     (case js_trim s of
        [] \<Rightarrow> None
      | c # r \<Rightarrow>
          if c = 0x5B \<and> r \<noteq> [] \<and> last r = 0x5D
          then (if js_trim (butlast r) = [] then Some []
                else those (map parse_flag (js_split 0x2C (butlast r))))
          else None)"

section \<open>The page of the final key\<close>

text \<open>
  The values a variable of the page can hold. \<open>===\<close> compares two strings, numbers or
  booleans by value, an object with itself only (here: by its reference), and values of
  different types are never equal.
\<close>

datatype jsval = Undefined | Null | Boolean bool | Number int | String jsstring | Object nat

definition strict_equals :: "jsval \<Rightarrow> jsval \<Rightarrow> bool" where
  "strict_equals a b = (a = b)"

text \<open>What \<open>response.json()\<close> yields: \<open>null\<close>, another primitive value, or an object or
  array with its properties.\<close>

datatype json_body = BodyNull | BodyPrimitive | BodyObject "jsstring \<Rightarrow> jsval option"

datatype fetch_outcome = FetchRejected | BodyNotJson | BodyParsed json_body

datatype page_callback = GoToFinalPage | ResetInput

record newpage =
  finalKey :: jsval
  final_password :: "element option"
  location_href :: jsstring
  page_console :: "log_entry list"
  requests :: "jsstring list"
  timeouts :: "(page_callback \<times> int) list"
  keypress_listener :: bool

text \<open>The top level of the script: \<open>finalKey\<close> is declared without a value and the one
  \<open>fetch\<close> is issued.\<close>

definition newpage_script :: "newpage \<Rightarrow> newpage" where
  "newpage_script p = p\<lparr>finalKey := Undefined, requests := requests p @ [ascii ''../keys.json'']\<rparr>"

text \<open>The promise chain, run when the request settles. Reading \<open>data.finalKey\<close> of \<open>null\<close>
  raises inside the chain and ends in the \<open>catch\<close>; a missing property reads as
  \<open>undefined\<close>.\<close>

definition fetch_settled :: "fetch_outcome \<Rightarrow> newpage \<Rightarrow> newpage" where
  "fetch_settled outcome p =
     (case outcome of
        FetchRejected \<Rightarrow> p\<lparr>page_console := page_console p @ [ConsoleError log_keys_failed]\<rparr>
      | BodyNotJson \<Rightarrow> p\<lparr>page_console := page_console p @ [ConsoleError log_keys_failed]\<rparr>
      | BodyParsed BodyNull \<Rightarrow> p\<lparr>page_console := page_console p @ [ConsoleError log_keys_failed]\<rparr>
      | BodyParsed BodyPrimitive \<Rightarrow> p\<lparr>finalKey := Undefined\<rparr>
      | BodyParsed (BodyObject props) \<Rightarrow>
          p\<lparr>finalKey := (case props (ascii ''finalKey'') of None \<Rightarrow> Undefined | Some v \<Rightarrow> v)\<rparr>)"

text \<open>\<open>checkFinalPassword()\<close>; \<open>getElementById\<close> gives \<open>null\<close> when the page has no such
  element, and reading \<open>value\<close> of \<open>null\<close> raises.\<close>

definition checkFinalPassword :: "newpage \<Rightarrow> js_error + newpage" where
  "checkFinalPassword p =
     (case final_password p of
        None \<Rightarrow> Inl TypeError
      | Some input \<Rightarrow>
          (let enteredKey = el_value input
           in if strict_equals (String enteredKey) (finalKey p)
              then Inr (p\<lparr>final_password :=
                            Some (input\<lparr>el_borderColor := ascii ''#4CAF50'',
                                         el_backgroundColor := ascii ''#1a5f20'',
                                         el_value := txt_key_correct, el_disabled := True\<rparr>),
                          timeouts := timeouts p @ [(GoToFinalPage, 1000)]\<rparr>)
              else Inr (p\<lparr>final_password :=
                            Some (input\<lparr>el_borderColor := ascii ''#f44336'',
                                         el_backgroundColor := ascii ''#5f1a1a'',
                                         el_value := txt_key_wrong\<rparr>),
                          timeouts := timeouts p @ [(ResetInput, 1000)]\<rparr>)))"

definition handleKeyPress :: "jsstring \<Rightarrow> newpage \<Rightarrow> js_error + newpage" where
  "handleKeyPress key p = (if key = ascii ''Enter'' then checkFinalPassword p else Inr p)"

text \<open>The two callbacks handed to \<open>setTimeout\<close>, run when their timeout fires.\<close>

definition run_callback :: "page_callback \<Rightarrow> newpage \<Rightarrow> newpage" where
  "run_callback cb p =
     (case cb of
        GoToFinalPage \<Rightarrow> p\<lparr>location_href := ascii ''/two/finalpage''\<rparr>
      | ResetInput \<Rightarrow>
          p\<lparr>final_password :=
              map_option (\<lambda>input. input\<lparr>el_value := [], el_borderColor := ascii ''#444'',
                                            el_backgroundColor := ascii ''#222''\<rparr>) (final_password p)\<rparr>)"

text \<open>
  The page as an event loop. After the script has run, the page reacts to: the request
  settling, \<open>DOMContentLoaded\<close> (which installs the key listener), a key pressed in the
  input field and the user editing the field (both only while the field is enabled), and
  the oldest pending timeout firing. A handler
  that raises leaves the page as it was.
\<close>

datatype page_event =
  Settled fetch_outcome | DOMContentLoaded | KeyPress jsstring | Typed jsstring | TimeoutFires

definition page_step :: "page_event \<Rightarrow> newpage \<Rightarrow> newpage" where
  "page_step ev p =
     (case ev of
        Settled outcome \<Rightarrow> fetch_settled outcome p
      | DOMContentLoaded \<Rightarrow>
          (case final_password p of None \<Rightarrow> p | Some _ \<Rightarrow> p\<lparr>keypress_listener := True\<rparr>)
      | KeyPress key \<Rightarrow>
          (if keypress_listener p
                \<and> (case final_password p of None \<Rightarrow> False | Some input \<Rightarrow> \<not> el_disabled input)
           then (case handleKeyPress key p of Inl _ \<Rightarrow> p | Inr p' \<Rightarrow> p')
           else p)
      | Typed text \<Rightarrow>
          (case final_password p of
             None \<Rightarrow> p
           | Some input \<Rightarrow>
               if el_disabled input then p
               else p\<lparr>final_password := Some (input\<lparr>el_value := text\<rparr>)\<rparr>)
      | TimeoutFires \<Rightarrow>
          (case timeouts p of
             [] \<Rightarrow> p
           | (cb, _) # rest \<Rightarrow> run_callback cb (p\<lparr>timeouts := rest\<rparr>)))"

fun page_run :: "page_event list \<Rightarrow> newpage \<Rightarrow> newpage" where
  "page_run [] p = p"
| "page_run (ev # evs) p = page_run evs (page_step ev p)"

section \<open>Sample states\<close>

text \<open>A page as it is after loading: untouched elements, a manager for the cookie \<open>cd\<close>
  with a cooldown of 30 seconds, and a browser with a given clock and cookie store.\<close>

definition fresh_element :: element where
  "fresh_element =
     \<lparr>el_disabled = False, el_textContent = [], el_value = [], el_classList = [],
      el_borderColor = [], el_backgroundColor = []\<rparr>"

definition sample_manager :: CooldownManager where
  "sample_manager =
     new_CooldownManager
       \<lparr>opt_cookieName = ascii ''cd'', opt_cooldownSeconds = 30,
        opt_inputElement = fresh_element, opt_buttonElement = fresh_element,
        opt_errorElement = fresh_element, opt_formElement = fresh_element,
        opt_buttonDefaultText = None, opt_buttonLoadingText = None\<rparr>"

definition sample_browser :: "int \<Rightarrow> cookie list \<Rightarrow> browser" where
  "sample_browser now cs =
     \<lparr>clock = now, cookies = cs, localStorage = (\<lambda>_. None), console = [], timers = [],
      next_timer_id = 1, invoked = []\<rparr>"

text \<open>The page of the final key before its script runs, with a text in the input field.\<close>

definition sample_newpage :: "jsstring \<Rightarrow> newpage" where
  "sample_newpage entered =
     \<lparr>finalKey = Undefined, final_password = Some (fresh_element\<lparr>el_value := entered\<rparr>),
      location_href = ascii ''/two/newpage'', page_console = [], requests = [], timeouts = [],
      keypress_listener = False\<rparr>"

text \<open>A local storage that holds one text under the key \<open>unlocked\<close>.\<close>

definition sample_storage :: "jsstring \<Rightarrow> browser" where
  "sample_storage text =
     (sample_browser 1000 [])\<lparr>localStorage := (\<lambda>k. if k = ascii ''unlocked'' then Some text else None)\<rparr>"

section \<open>Properties\<close>

lemma ceil_div_1000_ceiling: "ceil_div_1000 x = \<lceil>real_of_int x / 1000\<rceil>"
proof -
  have "\<lceil>real_of_int x / 1000\<rceil> = - \<lfloor>real_of_int (- x) / real_of_int 1000\<rfloor>"
    by (simp add: ceiling_def)
  also have "\<dots> = - ((- x) div 1000)"
    by (simp only: floor_divide_of_int_eq)
  finally show ?thesis
    by (simp add: ceil_div_1000_def)
qed


subsection \<open>Numbers written as strings are read back\<close>

lemma digit_unit_unat: "d < 10 \<Longrightarrow> unat (digit_unit d) = 48 + d"
  by (simp add: digit_unit_def unat_word_ariths unat_of_nat)

lemma digit_unit_bounds: "d < 10 \<Longrightarrow> 0x30 \<le> digit_unit d \<and> digit_unit d \<le> 0x39"
  using digit_unit_unat [of d] by (simp add: word_le_nat_alt)

lemma digit_value_digit_unit: "d < 10 \<Longrightarrow> digit_value (digit_unit d) = Some d"
  using digit_unit_bounds [of d] digit_unit_unat [of d] by (simp add: digit_value_def)

lemma is_radix_digit_digit_unit: "d < 10 \<Longrightarrow> is_radix_digit 10 (digit_unit d)"
  by (simp add: is_radix_digit_def digit_value_digit_unit)

lemma digit_unit_not_special:
  "d < 10 \<Longrightarrow> \<not> is_js_whitespace (digit_unit d) \<and> digit_unit d \<noteq> 0x2D \<and> digit_unit d \<noteq> 0x2B
     \<and> digit_unit d \<noteq> 0x78 \<and> digit_unit d \<noteq> 0x58 \<and> digit_unit d \<noteq> 0x3B \<and> digit_unit d \<noteq> 0x3D"
  using digit_unit_unat [of d] by (auto simp: is_js_whitespace_def word_le_nat_alt)

lemma nat_to_string_digits: "\<forall>c \<in> set (nat_to_string n). \<exists>d<10. c = digit_unit d"
proof (induction n rule: nat_to_string.induct)
  case (1 n)
  show ?case
  proof (cases "n < 10")
    case True
    then show ?thesis by (subst nat_to_string.simps) auto
  next
    case False
    have "\<exists>d<10. digit_unit (n mod 10) = digit_unit d"
      by (rule exI [of _ "n mod 10"]) simp
    with False 1 show ?thesis by (subst nat_to_string.simps) auto
  qed
qed

lemma nat_to_string_nonempty: "nat_to_string n \<noteq> []"
  by (subst nat_to_string.simps) simp

lemma digits_value_snoc:
  "digits_value r (z @ [c]) = digits_value r z * r + (case digit_value c of None \<Rightarrow> 0 | Some d \<Rightarrow> d)"
  by (simp add: digits_value_def)

lemma digits_value_nat_to_string: "digits_value 10 (nat_to_string n) = n"
proof (induction n rule: nat_to_string.induct)
  case (1 n)
  show ?case
  proof (cases "n < 10")
    case True
    then show ?thesis
      by (subst nat_to_string.simps) (simp add: digits_value_def digit_value_digit_unit)
  next
    case False
    with 1 show ?thesis
      by (subst nat_to_string.simps) (simp add: digits_value_snoc digit_value_digit_unit)
  qed
qed

lemma not_hex_prefix:
  assumes "\<forall>c \<in> set s. \<exists>d<10. c = digit_unit d"
  shows "\<not> (case s of a # b # _ \<Rightarrow> a = 0x30 \<and> (b = 0x78 \<or> b = 0x58) | _ \<Rightarrow> False)"
proof (cases s)
  case Nil
  then show ?thesis by simp
next
  case (Cons a r)
  show ?thesis
  proof (cases r)
    case Nil
    with Cons show ?thesis by simp
  next
    case (Cons b r')
    with assms \<open>s = a # r\<close> obtain e where "e < 10" "b = digit_unit e" by auto
    with Cons \<open>s = a # r\<close> digit_unit_not_special [of e] show ?thesis by simp
  qed
qed

lemma parseInt_digits:
  assumes "s \<noteq> []" and "\<forall>c \<in> set s. \<exists>d<10. c = digit_unit d"
  shows "parseInt s = Some (int (digits_value 10 s))"
proof -
  from assms obtain a r where s: "s = a # r" by (cases s) auto
  from assms s obtain d where d: "d < 10" "a = digit_unit d" by auto
  have trim: "js_trimStart s = s"
    using s d digit_unit_not_special [of d] by (simp add: js_trimStart_def)
  have tw: "takeWhile (is_radix_digit 10) s = s"
    using assms(2) by (auto simp: takeWhile_eq_all_conv is_radix_digit_digit_unit)
  have s1: "(case s of [] \<Rightarrow> s | c # r \<Rightarrow> if c = 0x2B \<or> c = 0x2D then r else s) = s"
    using s d digit_unit_not_special [of d] by simp
  have sg: "(case s of [] \<Rightarrow> 1 | c # _ \<Rightarrow> if c = 0x2D then - 1 else (1 :: int)) = 1"
    using s d digit_unit_not_special [of d] by simp
  show ?thesis
    unfolding parseInt_def Let_def trim s1 sg
    using not_hex_prefix [OF assms(2)] assms(1) by (simp add: tw)
qed

lemma parseInt_minus_digits:
  assumes "s \<noteq> []" and "\<forall>c \<in> set s. \<exists>d<10. c = digit_unit d"
  shows "parseInt (0x2D # s) = Some (- int (digits_value 10 s))"
proof -
  have ws: "\<not> is_js_whitespace 0x2D" by (simp add: is_js_whitespace_def)
  have tw: "takeWhile (is_radix_digit 10) s = s"
    using assms(2) by (auto simp: takeWhile_eq_all_conv is_radix_digit_digit_unit)
  show ?thesis
    using ws not_hex_prefix [OF assms(2)] assms(1)
    by (simp add: parseInt_def Let_def js_trimStart_def tw)
qed

lemma parseInt_number_to_string: "parseInt (number_to_string i) = Some i"
proof (cases "i < 0")
  case True
  then show ?thesis
    using parseInt_minus_digits [OF nat_to_string_nonempty nat_to_string_digits, of "nat (- i)"]
    by (simp add: number_to_string_def digits_value_nat_to_string)
next
  case False
  then show ?thesis
    using parseInt_digits [OF nat_to_string_nonempty nat_to_string_digits, of "nat i"]
    by (simp add: number_to_string_def digits_value_nat_to_string)
qed

lemma number_to_string_nonempty: "number_to_string i \<noteq> []"
  by (simp add: number_to_string_def nat_to_string_nonempty)

subsection \<open>What each operation leaves unchanged\<close>

lemma clear_timer_frame [simp]:
  "invoked (clear_timer h b) = invoked b" "cookies (clear_timer h b) = cookies b"
  "clock (clear_timer h b) = clock b" "localStorage (clear_timer h b) = localStorage b"
  "console (clear_timer h b) = console b"
  by (simp_all add: clear_timer_def split: option.splits)

lemma set_timer_frame [simp]:
  "invoked (snd (set_timer k cb d b)) = invoked b" "cookies (snd (set_timer k cb d b)) = cookies b"
  "clock (snd (set_timer k cb d b)) = clock b" "localStorage (snd (set_timer k cb d b)) = localStorage b"
  "console (snd (set_timer k cb d b)) = console b"
  by (simp_all add: set_timer_def)

lemma document_cookie_assign_frame [simp]:
  "invoked (document_cookie_assign s b) = invoked b"
  "clock (document_cookie_assign s b) = clock b"
  "localStorage (document_cookie_assign s b) = localStorage b"
  "console (document_cookie_assign s b) = console b"
  "timers (document_cookie_assign s b) = timers b"
  by (simp_all add: document_cookie_assign_def Let_def split: prod.splits option.splits)

lemma setVerifyingState_frame [simp]:
  "invoked (snd (setVerifyingState mb)) = invoked (snd mb)"
  "cookies (snd (setVerifyingState mb)) = cookies (snd mb)"
  "clock (snd (setVerifyingState mb)) = clock (snd mb)"
  "cookieName (fst (setVerifyingState mb)) = cookieName (fst mb)"
  "cooldownSeconds (fst (setVerifyingState mb)) = cooldownSeconds (fst mb)"
  by (simp_all add: setVerifyingState_def Let_def case_prod_beta)

lemma clearCooldownState_frame [simp]:
  "invoked (snd (clearCooldownState f mb)) = invoked (snd mb)"
  "cookies (snd (clearCooldownState f mb)) = cookies (snd mb)"
  "clock (snd (clearCooldownState f mb)) = clock (snd mb)"
  "cookieName (fst (clearCooldownState f mb)) = cookieName (fst mb)"
  "cooldownSeconds (fst (clearCooldownState f mb)) = cooldownSeconds (fst mb)"
  by (simp_all add: clearCooldownState_def Let_def case_prod_beta)

lemma updateTimerDisplay_frame [simp]:
  "invoked (snd (snd (updateTimerDisplay n mb))) = invoked (snd mb)"
  "cookies (snd (snd (updateTimerDisplay n mb))) = cookies (snd mb)"
  "clock (snd (snd (updateTimerDisplay n mb))) = clock (snd mb)"
  "cookieName (fst (snd (updateTimerDisplay n mb))) = cookieName (fst mb)"
  "cooldownSeconds (fst (snd (updateTimerDisplay n mb))) = cooldownSeconds (fst mb)"
  by (simp_all add: updateTimerDisplay_def case_prod_beta)

lemma startFrontendCooldownTimers_frame [simp]:
  "invoked (snd (startFrontendCooldownTimers r mb)) = invoked (snd mb)"
  "cookies (snd (startFrontendCooldownTimers r mb)) = cookies (snd mb)"
  "clock (snd (startFrontendCooldownTimers r mb)) = clock (snd mb)"
  "cookieName (fst (startFrontendCooldownTimers r mb)) = cookieName (fst mb)"
  "cooldownSeconds (fst (startFrontendCooldownTimers r mb)) = cooldownSeconds (fst mb)"
  by (simp_all add: startFrontendCooldownTimers_def Let_def case_prod_beta)

lemma setCooldown_frame [simp]:
  "invoked (setCooldown m b) = invoked b" "clock (setCooldown m b) = clock b"
  by (simp_all add: setCooldown_def setCookie_def Let_def)

lemma clearCooldown_frame [simp]:
  "invoked (clearCooldown m b) = invoked b" "clock (clearCooldown m b) = clock b"
  by (simp_all add: clearCooldown_def deleteCookie_def)


subsection \<open>The cooldown check\<close>

text \<open>
  C10. When the value that \<open>getCookie\<close> finds for the cooldown cookie does not parse as a
  number (\<open>parseInt\<close> gives \<open>NaN\<close>), \<open>checkCooldown\<close> answers that no cooldown is active,
  with 0 seconds remaining, as it does for an absent cookie.
\<close>

theorem checkCooldown_malformed:
  "getCookie (cookieName m) b = Some v \<Longrightarrow> parseInt v = None \<Longrightarrow>
   checkCooldown m b = \<lparr>cooldown = False, remaining = 0\<rparr>"
  by (simp add: checkCooldown_def)

lemmas sample_defs =
  sample_manager_def sample_browser_def new_CooldownManager_def or_default_def fresh_element_def

lemmas cookie_read_defs =
  getCookie_def document_cookie_def cookie_pair_def cookie_expired_def ascii_def
  js_trim_def is_js_whitespace_def js_substring_def

theorem checkCooldown_malformed_witness:
  "getCookie (cookieName sample_manager)
      (sample_browser 1000 [\<lparr>ck_name = ascii ''cd'', ck_value = ascii ''soon'', ck_expires = None\<rparr>])
     = Some (ascii ''soon'')
   \<and> parseInt (ascii ''soon'') = None
   \<and> checkCooldown sample_manager
        (sample_browser 1000 [\<lparr>ck_name = ascii ''cd'', ck_value = ascii ''soon'', ck_expires = None\<rparr>])
       = \<lparr>cooldown = False, remaining = 0\<rparr>"
proof -
  let ?b = "sample_browser 1000 [\<lparr>ck_name = ascii ''cd'', ck_value = ascii ''soon'', ck_expires = None\<rparr>]"
  have g: "getCookie (cookieName sample_manager) ?b = Some (ascii ''soon'')"
    by (simp add: sample_defs cookie_read_defs)
  have p: "parseInt (ascii ''soon'') = None"
    by (simp add: parseInt_def ascii_def js_trimStart_def is_js_whitespace_def is_radix_digit_def
        digit_value_def)
  from checkCooldown_malformed [OF g p] g p show ?thesis by simp
qed

subsection \<open>The password check\<close>

text \<open>
  C1, as the code has it. \<open>verifyPassword\<close> calls \<open>onSuccess\<close> exactly when the entered
  password is not empty and equals the expected password; in every other case the call
  is not made.
\<close>

theorem verifyPassword_onSuccess:
  "invoked (snd (verifyPassword inputPassword correctPassword (m, b))) =
     (if inputPassword \<noteq> [] \<and> inputPassword = correctPassword then invoked b @ [OnSuccess] else invoked b)"
proof (cases "inputPassword = []")
  case True
  then show ?thesis by (simp add: verifyPassword_def)
next
  case False
  obtain m1 b1 where s1: "setVerifyingState (m, b) = (m1, b1)" by (cases "setVerifyingState (m, b)")
  have i1: "invoked b1 = invoked b" using setVerifyingState_frame(1) [of "(m, b)"] s1 by simp
  show ?thesis
  proof (cases "inputPassword = correctPassword")
    case True
    obtain m2 b2 where s2: "clearCooldownState True (m1, b1\<lparr>console := console b1 @ [ConsoleLog log_password_ok]\<rparr>) = (m2, b2)"
      by (cases "clearCooldownState True (m1, b1\<lparr>console := console b1 @ [ConsoleLog log_password_ok]\<rparr>)")
    have "invoked b2 = invoked b"
      using clearCooldownState_frame(1) [of True "(m1, b1\<lparr>console := console b1 @ [ConsoleLog log_password_ok]\<rparr>)"] s2 i1
      by simp
    with False True s1 s2 show ?thesis
      by (simp add: verifyPassword_def Let_def)
  next
    case neq: False
    have "invoked (snd (startFrontendCooldownTimers r (m', setCooldown m'' (b1\<lparr>console := cs\<rparr>)))) = invoked b" for r m' m'' cs
      using i1 by simp
    with False neq s1 show ?thesis
      by (simp add: verifyPassword_def Let_def)
  qed
qed

text \<open>An empty entry equals an empty expected password, and \<open>onSuccess\<close> is not called.\<close>

theorem verifyPassword_empty_counterexample:
  "([] :: jsstring) = [] \<and>
   invoked (snd (verifyPassword [] [] (sample_manager, sample_browser 1000 []))) = []"
  by (simp add: verifyPassword_def sample_browser_def)


subsection \<open>The page of the final key\<close>

text \<open>
  C9. While \<open>finalKey\<close> is still \<open>undefined\<close>, \<open>checkFinalPassword\<close> takes the failure branch
  whatever string the input field holds: the field shows the text for a wrong key, the
  timeout that resets the field is scheduled and no navigation to \<open>/two/finalpage\<close> is
  (when the page has no such field, the function raises and schedules nothing).
\<close>

theorem checkFinalPassword_before_key:
  "finalKey p = Undefined \<Longrightarrow>
   checkFinalPassword p =
     (case final_password p of
        None \<Rightarrow> Inl TypeError
      | Some input \<Rightarrow>
          Inr (p\<lparr>final_password :=
                   Some (input\<lparr>el_borderColor := ascii ''#f44336'', el_backgroundColor := ascii ''#5f1a1a'',
                                el_value := txt_key_wrong\<rparr>),
                 timeouts := timeouts p @ [(ResetInput, 1000)]\<rparr>))"
  by (simp add: checkFinalPassword_def strict_equals_def Let_def split: option.splits)

theorem checkFinalPassword_before_key_witness:
  "finalKey (newpage_script (sample_newpage (ascii ''undefined''))) = Undefined \<and>
   checkFinalPassword (newpage_script (sample_newpage (ascii ''undefined''))) =
     Inr ((newpage_script (sample_newpage (ascii ''undefined'')))
            \<lparr>final_password :=
               Some (fresh_element\<lparr>el_value := ascii ''undefined'', el_borderColor := ascii ''#f44336'',
                       el_backgroundColor := ascii ''#5f1a1a'', el_value := txt_key_wrong\<rparr>),
             timeouts := [(ResetInput, 1000)]\<rparr>)"
  using checkFinalPassword_before_key [of "newpage_script (sample_newpage (ascii ''undefined''))"]
  by (simp add: newpage_script_def sample_newpage_def)

text \<open>The same over whole runs of the page: as long as the request has not settled, no
  sequence of events sets the key, schedules the navigation or changes the location.\<close>

lemma page_step_before_key:
  assumes "finalKey p = Undefined" "GoToFinalPage \<notin> fst ` set (timeouts p)" "\<forall>oc. ev \<noteq> Settled oc"
  shows "finalKey (page_step ev p) = Undefined \<and> GoToFinalPage \<notin> fst ` set (timeouts (page_step ev p))
         \<and> location_href (page_step ev p) = location_href p"
proof (cases ev)
  case (Settled x1)
  with assms show ?thesis by simp
next
  case DOMContentLoaded
  with assms show ?thesis by (simp add: page_step_def split: option.splits)
next
  case (KeyPress key)
  with assms checkFinalPassword_before_key [OF assms(1)] show ?thesis
    by (auto simp: page_step_def handleKeyPress_def split: option.splits sum.splits)
next
  case (Typed x4)
  with assms show ?thesis by (simp add: page_step_def split: option.splits)
next
  case TimeoutFires
  show ?thesis
  proof (cases "timeouts p")
    case Nil
    with TimeoutFires assms show ?thesis by (simp add: page_step_def)
  next
    case (Cons a rest)
    obtain cb d where a: "a = (cb, d)" by (cases a)
    with Cons assms(2) have "cb = ResetInput" by (cases cb) auto
    with TimeoutFires Cons a assms show ?thesis
      by (auto simp: page_step_def run_callback_def)
  qed
qed

lemma page_run_before_key:
  assumes "finalKey p = Undefined" "GoToFinalPage \<notin> fst ` set (timeouts p)"
    "\<forall>ev \<in> set evs. \<forall>oc. ev \<noteq> Settled oc"
  shows "finalKey (page_run evs p) = Undefined \<and> GoToFinalPage \<notin> fst ` set (timeouts (page_run evs p))
         \<and> location_href (page_run evs p) = location_href p"
  using assms
proof (induction evs arbitrary: p)
  case Nil
  then show ?case by simp
next
  case (Cons ev evs)
  from Cons.prems have s: "finalKey (page_step ev p) = Undefined"
    "GoToFinalPage \<notin> fst ` set (timeouts (page_step ev p))"
    "location_href (page_step ev p) = location_href p"
    using page_step_before_key [of p ev] by auto
  from Cons.prems have "\<forall>ev \<in> set evs. \<forall>oc. ev \<noteq> Settled oc" by simp
  from Cons.IH [OF s(1) s(2) this] s(3) show ?case by simp
qed

lemma requests_page_step: "requests (page_step ev p) = requests p"
  by (cases ev)
    (auto simp: page_step_def fetch_settled_def handleKeyPress_def checkFinalPassword_def Let_def
      run_callback_def split: option.splits sum.splits fetch_outcome.splits json_body.splits
      list.splits page_callback.splits)

lemma requests_page_run: "requests (page_run evs p) = requests p"
  by (induction evs arbitrary: p) (simp_all add: requests_page_step)

text \<open>
  C7. When the request for \<open>keys.json\<close> fails (the fetch is rejected, or the body is not
  JSON), the only change to the page is one more error line on the console; \<open>finalKey\<close>
  stays \<open>undefined\<close>, and whatever happens afterwards the request issued by the script
  remains the only one: nothing is retried.
\<close>

theorem fetch_failure_only_logged:
  "fetch_settled FetchRejected (newpage_script p) =
     (newpage_script p)\<lparr>page_console := page_console p @ [ConsoleError log_keys_failed]\<rparr>
   \<and> fetch_settled BodyNotJson (newpage_script p) =
     (newpage_script p)\<lparr>page_console := page_console p @ [ConsoleError log_keys_failed]\<rparr>
   \<and> finalKey (fetch_settled FetchRejected (newpage_script p)) = Undefined
   \<and> requests (page_run evs (fetch_settled FetchRejected (newpage_script p)))
       = requests p @ [ascii ''../keys.json'']"
  by (simp add: requests_page_run) (simp add: fetch_settled_def newpage_script_def)

subsection \<open>Unlock state\<close>

text \<open>
  C5. When nothing is stored under the key, or the stored string is empty or is not valid
  JSON (the parse raises), \<open>loadUnlockedState\<close> returns the default it was given; it
  raises nothing and leaves the storage as it was.
\<close>

theorem loadUnlockedState_default:
  "(case localStorage b key of None \<Rightarrow> True | Some saved \<Rightarrow> saved = [] \<or> JSON_parse saved = None) \<Longrightarrow>
   fst (loadUnlockedState JSON_parse key defaultValue b) = defaultValue
   \<and> localStorage (snd (loadUnlockedState JSON_parse key defaultValue b)) = localStorage b"
  by (auto simp: loadUnlockedState_def split: option.splits)

lemmas flags_defs =
  stringify_flags_def parse_flags_def parse_flag_def ascii_def js_trim_def is_js_whitespace_def

theorem loadUnlockedState_default_witness:
  "(case localStorage (sample_storage (ascii ''[true,fal'')) (ascii ''unlocked'') of
      None \<Rightarrow> True | Some saved \<Rightarrow> saved = [] \<or> parse_flags saved = None)
   \<and> fst (loadUnlockedState parse_flags (ascii ''unlocked'') [False, False]
            (sample_storage (ascii ''[true,fal''))) = [False, False]
   \<and> localStorage (snd (loadUnlockedState parse_flags (ascii ''unlocked'') [False, False]
            (sample_storage (ascii ''[true,fal''))))
       = localStorage (sample_storage (ascii ''[true,fal''))"
proof -
  have h: "(case localStorage (sample_storage (ascii ''[true,fal'')) (ascii ''unlocked'') of
      None \<Rightarrow> True | Some saved \<Rightarrow> saved = [] \<or> parse_flags saved = None)"
    by (simp add: sample_storage_def flags_defs)
  from loadUnlockedState_default [where JSON_parse = parse_flags and key = "ascii ''unlocked''"
      and b = "sample_storage (ascii ''[true,fal'')" and defaultValue = "[False, False]"] h
  show ?thesis by simp
qed

text \<open>
  C6. A state saved with \<open>saveUnlockedState\<close> is what \<open>loadUnlockedState\<close> returns for the
  same key afterwards, whatever default is passed: for a state that \<open>JSON.stringify\<close>
  turns into a text (never empty) which \<open>JSON.parse\<close> reads, the result is the value read
  from that text.
\<close>

theorem save_then_load:
  "JSON_stringify state = Some json \<Longrightarrow> json \<noteq> [] \<Longrightarrow> JSON_parse json = Some state' \<Longrightarrow>
   \<exists>b'. saveUnlockedState JSON_stringify key state b = Inr b'
        \<and> loadUnlockedState JSON_parse key defaultValue b' = (state', b')"
  by (simp add: saveUnlockedState_def loadUnlockedState_def)

theorem save_then_load_witness:
  "stringify_flags [True, False] = Some (ascii ''[true,false]'')
   \<and> ascii ''[true,false]'' \<noteq> []
   \<and> parse_flags (ascii ''[true,false]'') = Some [True, False]
   \<and> (\<exists>b'. saveUnlockedState stringify_flags (ascii ''unlocked'') [True, False] (sample_browser 1000 []) = Inr b'
         \<and> loadUnlockedState parse_flags (ascii ''unlocked'') [] b' = ([True, False], b'))"
proof -
  have a: "stringify_flags [True, False] = Some (ascii ''[true,false]'')"
    by (simp add: flags_defs)
  have b: "ascii ''[true,false]'' \<noteq> []"
    by (simp add: ascii_def)
  have c: "parse_flags (ascii ''[true,false]'') = Some [True, False]"
    by (simp add: flags_defs)
  from save_then_load [where JSON_stringify = stringify_flags and JSON_parse = parse_flags
      and state = "[True, False]" and json = "ascii ''[true,false]''" and state' = "[True, False]"
      and key = "ascii ''unlocked''" and b = "sample_browser 1000 []" and defaultValue = "[]"]
    a b c
  show ?thesis by simp
qed

subsection \<open>The calendar\<close>

lemma year_search_spec:
  "DayFromYear y0 \<le> d \<Longrightarrow>
   DayFromYear (year_search y0 d) \<le> d \<and> d < DayFromYear (year_search y0 d + 1)"
proof (induction y0 d rule: year_search.induct)
  case (1 y d)
  show ?case
  proof (cases "DayFromYear (y + 1) \<le> d")
    case True
    with 1 show ?thesis by (subst (1 2) year_search.simps) simp
  next
    case False
    with 1 show ?thesis by (subst (1 2) year_search.simps) simp
  qed
qed

lemma DayFromYear_1970: "DayFromYear 1970 = 0"
  by (simp add: DayFromYear_def)

lemma DayFromYear_upper: "DayFromYear (1970 + int k) \<le> 366 * int k"
proof (induction k)
  case 0
  then show ?case by (simp add: DayFromYear_1970)
next
  case (Suc k)
  have "1970 + int (Suc k) = 1970 + int k + 1"
    by simp
  then have "DayFromYear (1970 + int (Suc k)) \<le> DayFromYear (1970 + int k) + 366"
    using DayFromYear_Suc [of "1970 + int k"] by (simp split: if_splits)
  with Suc show ?case by simp
qed

lemma DayFromYear_lower: "DayFromYear (1970 - int k) \<le> - 365 * int k"
proof (induction k)
  case 0
  then show ?case by (simp add: DayFromYear_1970)
next
  case (Suc k)
  have "1970 - int (Suc k) + 1 = 1970 - int k"
    by simp
  then have "DayFromYear (1970 - int (Suc k)) + 365 \<le> DayFromYear (1970 - int k)"
    using DayFromYear_Suc [of "1970 - int (Suc k)"] by (simp split: if_splits)
  with Suc show ?case by simp
qed

lemma year_estimate: "DayFromYear (1970 + (if 0 \<le> d then d div 366 else d div 365)) \<le> d"
proof (cases "0 \<le> d")
  case True
  note pos = this
  have "0 \<le> d div 366" using pos by simp
  then have k: "int (nat (d div 366)) = d div 366" by simp
  have "366 * (d div 366) \<le> d"
    using div_mult_mod_eq [of d 366] pos_mod_sign [of 366 d] by simp
  with DayFromYear_upper [of "nat (d div 366)"] have "DayFromYear (1970 + d div 366) \<le> d"
    unfolding k by simp
  with pos show ?thesis by simp
next
  case False
  note neg = this
  have "d div 365 < 0" using neg by (simp add: div_neg_pos_less0)
  then have k: "int (nat (- (d div 365))) = - (d div 365)" by simp
  have "365 * (d div 365) \<le> d"
    using div_mult_mod_eq [of d 365] pos_mod_sign [of 365 d] by simp
  with DayFromYear_lower [of "nat (- (d div 365))"] have "DayFromYear (1970 + d div 365) \<le> d"
    unfolding k by simp
  with neg show ?thesis by simp
qed

lemma YearFromDay_spec:
  "DayFromYear (YearFromDay d) \<le> d \<and> d < DayFromYear (YearFromDay d + 1)"
  unfolding YearFromDay_def by (rule year_search_spec) (rule year_estimate)

lemma leap_days_range: "leap_days y = 0 \<or> leap_days y = 1"
  by (simp add: leap_days_def)

lemma day_in_year_range:
  "0 \<le> d - DayFromYear (YearFromDay d) \<and> d - DayFromYear (YearFromDay d) < 365 + leap_days (YearFromDay d)"
  using YearFromDay_spec [of d] by (simp add: DayFromYear_Suc leap_days_def)

lemma month_start_values:
  "month_start y 0 = 0" "month_start y 1 = 31" "month_start y 2 = 59 + leap_days y"
  "month_start y 3 = 90 + leap_days y" "month_start y 4 = 120 + leap_days y"
  "month_start y 5 = 151 + leap_days y" "month_start y 6 = 181 + leap_days y"
  "month_start y 7 = 212 + leap_days y" "month_start y 8 = 243 + leap_days y"
  "month_start y 9 = 273 + leap_days y" "month_start y 10 = 304 + leap_days y"
  "month_start y 11 = 334 + leap_days y" "month_start y (Suc 0) = 31"
  by (simp_all add: month_start_def)

lemma MonthFromDay_spec:
  assumes "0 \<le> diy" "diy < 365 + leap_days y"
  shows "MonthFromDay y diy < 12 \<and> month_start y (MonthFromDay y diy) \<le> diy
         \<and> diy - month_start y (MonthFromDay y diy) + 1 \<le> 31"
  using assms leap_days_range [of y]
  unfolding MonthFromDay_def
  by (auto simp: month_start_values)

subsection \<open>Digits and names of a date string\<close>

lemma decimal_pad2: "n < 100 \<Longrightarrow> decimal (pad2 n) = Some n"
proof -
  assume n: "n < 100"
  have a: "n div 10 mod 10 < 10" "n mod 10 < 10" by simp_all
  have "n div 10 mod 10 = n div 10" using n by simp
  then have "n div 10 mod 10 * 10 + n mod 10 = n" by simp
  then show ?thesis
    using a by (simp add: decimal_def pad2_def is_radix_digit_digit_unit digits_value_def
        digit_value_digit_unit)
qed

lemma nat_to_string_small:
  "n < 10 \<Longrightarrow> nat_to_string n = [digit_unit n]"
  "10 \<le> n \<Longrightarrow> nat_to_string n = nat_to_string (n div 10) @ [digit_unit (n mod 10)]"
  by (subst nat_to_string.simps, simp)+

lemma digit_unit_0: "digit_unit 0 = 0x30"
  by (simp add: digit_unit_def)

lemma replicate_small: "replicate 3 x = [x, x, x]" "replicate 2 x = [x, x]"
  by (simp_all add: numeral_3_eq_3 numeral_2_eq_2)

lemma year_digits:
  assumes "n < 10000"
  shows "replicate (4 - length (nat_to_string n)) 0x30 @ nat_to_string n =
         [digit_unit (n div 1000), digit_unit (n div 100 mod 10), digit_unit (n div 10 mod 10),
          digit_unit (n mod 10)]"
proof -
  consider "n < 10" | "10 \<le> n" "n < 100" | "100 \<le> n" "n < 1000" | "1000 \<le> n"
    by linarith
  then show ?thesis
  proof cases
    case 1
    then show ?thesis by (simp add: nat_to_string_small digit_unit_0 replicate_small)
  next
    case 2
    then have "n div 10 < 10" by simp
    with 2 show ?thesis by (simp add: nat_to_string_small digit_unit_0 replicate_small)
  next
    case 3
    have b: "n div 10 div 10 = n div 100" by (simp add: div_mult2_eq)
    from 3 have "n div 100 < 10" by simp
    then have s1: "nat_to_string (n div 100) = [digit_unit (n div 100)]"
      by (rule nat_to_string_small(1))
    from 3 have "10 \<le> n div 10" by simp
    then have s2: "nat_to_string (n div 10) = nat_to_string (n div 100) @ [digit_unit (n div 10 mod 10)]"
      using nat_to_string_small(2) [of "n div 10"] b by simp
    from 3 have "10 \<le> n" by simp
    then have s3: "nat_to_string n = nat_to_string (n div 10) @ [digit_unit (n mod 10)]"
      by (rule nat_to_string_small(2))
    from 3 have c: "n div 1000 = 0" "n div 100 mod 10 = n div 100" by simp_all
    show ?thesis
      unfolding s3 s2 s1 c by (simp add: digit_unit_0)
  next
    case 4
    have b: "n div 10 div 10 = n div 100" "n div 100 div 10 = n div 1000"
      by (simp_all add: div_mult2_eq)
    from 4 assms have "n div 1000 < 10" by simp
    then have s0: "nat_to_string (n div 1000) = [digit_unit (n div 1000)]"
      by (rule nat_to_string_small(1))
    from 4 have "10 \<le> n div 100" by simp
    then have s1: "nat_to_string (n div 100) = nat_to_string (n div 1000) @ [digit_unit (n div 100 mod 10)]"
      using nat_to_string_small(2) [of "n div 100"] b by simp
    from 4 have "10 \<le> n div 10" by simp
    then have s2: "nat_to_string (n div 10) = nat_to_string (n div 100) @ [digit_unit (n div 10 mod 10)]"
      using nat_to_string_small(2) [of "n div 10"] b by simp
    from 4 have "10 \<le> n" by simp
    then have s3: "nat_to_string n = nat_to_string (n div 10) @ [digit_unit (n mod 10)]"
      by (rule nat_to_string_small(2))
    show ?thesis
      unfolding s3 s2 s1 s0 by simp
  qed
qed

lemma decimal_4:
  assumes "n < 10000"
  shows "decimal [digit_unit (n div 1000), digit_unit (n div 100 mod 10), digit_unit (n div 10 mod 10),
          digit_unit (n mod 10)] = Some n"
proof -
  have a: "n div 1000 < 10" "n div 100 mod 10 < 10" "n div 10 mod 10 < 10" "n mod 10 < 10"
    using assms by simp_all
  have b: "n div 100 = n div 10 div 10" "n div 1000 = n div 10 div 10 div 10"
    by (simp_all add: div_mult2_eq)
  have "n div 10 div 10 div 10 * 10 + n div 10 div 10 mod 10 = n div 10 div 10"
    by simp
  moreover have "n div 10 div 10 * 10 + n div 10 mod 10 = n div 10"
    by simp
  moreover have "n div 10 * 10 + n mod 10 = n"
    by simp
  ultimately have "((n div 1000 * 10 + n div 100 mod 10) * 10 + n div 10 mod 10) * 10 + n mod 10 = n"
    unfolding b by simp
  then show ?thesis
    using a by (simp add: decimal_def is_radix_digit_digit_unit digits_value_def digit_value_digit_unit)
qed

lemma month_name_cases:
  assumes "m < 12"
  shows "\<exists>a b c. month_names ! m = [a, b, c] \<and> month_index [a, b, c] = Some m
           \<and> a \<noteq> 0x3B \<and> b \<noteq> 0x3B \<and> c \<noteq> 0x3B"
proof -
  from assms have "m = 0 \<or> m = 1 \<or> m = 2 \<or> m = 3 \<or> m = 4 \<or> m = 5 \<or> m = 6 \<or> m = 7 \<or> m = 8
      \<or> m = 9 \<or> m = 10 \<or> m = 11"
    by arith
  then show ?thesis
    by (elim disjE) (simp_all add: month_names_def month_index_def ascii_def ascii_lower_def)
qed

lemma day_name_cases:
  assumes "k < 7"
  shows "\<exists>a b c. day_names ! k = [a, b, c] \<and> \<not> is_wsp a \<and> a \<noteq> 0x3B \<and> b \<noteq> 0x3B \<and> c \<noteq> 0x3B"
proof -
  from assms have "k = 0 \<or> k = 1 \<or> k = 2 \<or> k = 3 \<or> k = 4 \<or> k = 5 \<or> k = 6"
    by arith
  then show ?thesis
    by (elim disjE) (simp_all add: day_names_def ascii_def is_wsp_def)
qed

subsection \<open>A date string is read back as the instant it was written for\<close>

lemma decimal_2: "n < 100 \<Longrightarrow> decimal [digit_unit (n div 10 mod 10), digit_unit (n mod 10)] = Some n"
  using decimal_pad2 [of n] by (simp add: pad2_def)

lemma seconds_split: "(s :: nat) div 3600 * 3600 + s div 60 mod 60 * 60 + s mod 60 = s"
proof -
  have a: "s div 3600 = s div 60 div 60" by (simp add: div_mult2_eq)
  have "(s div 60 div 60 * 60 + s div 60 mod 60) * 60 = s div 60 * 60" by simp
  then have "s div 60 div 60 * 3600 + s div 60 mod 60 * 60 = s div 60 * 60"
    by (simp only: add_mult_distrib mult.assoc)
  moreover have "s div 60 * 60 + s mod 60 = s" by simp
  ultimately show ?thesis unfolding a by simp
qed

lemma truncate_seconds:
  "Day t * msPerDay + (t mod msPerDay) div 1000 * 1000 = t - t mod 1000"
proof -
  have a: "Day t * msPerDay = t - t mod msPerDay"
    by (simp add: Day_def minus_mod_eq_div_mult)
  have b: "(t mod msPerDay) div 1000 * 1000 = t mod msPerDay - (t mod msPerDay) mod 1000"
    by (simp only: minus_mod_eq_div_mult)
  have c: "(t mod msPerDay) mod 1000 = t mod 1000"
    unfolding msPerDay_def by (rule mod_mod_cancel) simp
  show ?thesis unfolding a b c by simp
qed

lemma toUTCString_shape:
  assumes y: "0 \<le> YearFromDay (Day t)" "YearFromDay (Day t) \<le> 9999"
  defines "y \<equiv> YearFromDay (Day t)"
  defines "diy \<equiv> Day t - DayFromYear y"
  defines "m \<equiv> MonthFromDay y diy"
  defines "date \<equiv> nat (diy - month_start y m + 1)"
  defines "secs \<equiv> nat ((t mod msPerDay) div 1000)"
  shows "\<exists>w1 w2 w3 m1 m2 m3.
           month_index [m1, m2, m3] = Some m \<and> \<not> is_wsp w1 \<and>
           toUTCString (Some t) =
             [w1, w2, w3, 0x2C, 0x20,
              digit_unit (date div 10 mod 10), digit_unit (date mod 10), 0x20,
              m1, m2, m3, 0x20,
              digit_unit (nat y div 1000), digit_unit (nat y div 100 mod 10),
              digit_unit (nat y div 10 mod 10), digit_unit (nat y mod 10), 0x20,
              digit_unit (secs div 3600 div 10 mod 10), digit_unit (secs div 3600 mod 10), 0x3A,
              digit_unit (secs div 60 mod 60 div 10 mod 10), digit_unit (secs div 60 mod 60 mod 10), 0x3A,
              digit_unit (secs mod 60 div 10 mod 10), digit_unit (secs mod 60 mod 10), 0x20,
              0x47, 0x4D, 0x54]"
proof -
  have r: "0 \<le> diy" "diy < 365 + leap_days y"
    using day_in_year_range [of "Day t"] by (simp_all add: diy_def y_def)
  from MonthFromDay_spec [OF r] have m: "m < 12" by (simp add: m_def)
  have "nat ((Day t + 4) mod 7) < 7" by simp
  from day_name_cases [OF this] obtain w1 w2 w3 where
    w: "day_names ! nat ((Day t + 4) mod 7) = [w1, w2, w3]" "\<not> is_wsp w1" by blast
  from month_name_cases [OF m] obtain m1 m2 m3 where
    mn: "month_names ! m = [m1, m2, m3]" "month_index [m1, m2, m3] = Some m" by blast
  have "nat y < 10000" using y by (simp add: y_def)
  from year_digits [OF this] y(1) have ys: "year_string y =
      [digit_unit (nat y div 1000), digit_unit (nat y div 100 mod 10),
       digit_unit (nat y div 10 mod 10), digit_unit (nat y mod 10)]"
    by (simp add: year_string_def Let_def y_def)
  have "toUTCString (Some t) =
      day_names ! nat ((Day t + 4) mod 7) @ ascii '', '' @ pad2 date @ ascii '' ''
              @ month_names ! m @ ascii '' '' @ year_string y @ ascii '' ''
              @ pad2 (secs div 3600) @ ascii '':'' @ pad2 (secs div 60 mod 60) @ ascii '':''
              @ pad2 (secs mod 60) @ ascii '' GMT''"
    by (simp add: toUTCString_def Let_def y_def diy_def m_def date_def secs_def)
  then have "toUTCString (Some t) =
             [w1, w2, w3, 0x2C, 0x20,
              digit_unit (date div 10 mod 10), digit_unit (date mod 10), 0x20,
              m1, m2, m3, 0x20,
              digit_unit (nat y div 1000), digit_unit (nat y div 100 mod 10),
              digit_unit (nat y div 10 mod 10), digit_unit (nat y mod 10), 0x20,
              digit_unit (secs div 3600 div 10 mod 10), digit_unit (secs div 3600 mod 10), 0x3A,
              digit_unit (secs div 60 mod 60 div 10 mod 10), digit_unit (secs div 60 mod 60 mod 10), 0x3A,
              digit_unit (secs mod 60 div 10 mod 10), digit_unit (secs mod 60 mod 10), 0x20,
              0x47, 0x4D, 0x54]"
    unfolding w(1) mn(1) ys pad2_def by (simp add: ascii_def)
  with mn(2) w(2) show ?thesis by blast
qed

lemma parse_toUTCString:
  assumes y: "1601 \<le> YearFromDay (Day t)" "YearFromDay (Day t) \<le> 9999"
  shows "parse_cookie_date (toUTCString (Some t)) = Some (t - t mod 1000)"
proof -
  define y where "y = YearFromDay (Day t)"
  define diy where "diy = Day t - DayFromYear y"
  define m where "m = MonthFromDay y diy"
  define date where "date = nat (diy - month_start y m + 1)"
  define secs where "secs = nat ((t mod msPerDay) div 1000)"
  have r: "0 \<le> diy" "diy < 365 + leap_days y"
    using day_in_year_range [of "Day t"] by (simp_all add: diy_def y_def)
  from MonthFromDay_spec [OF r] have m: "m < 12" "month_start y m \<le> diy"
    "diy - month_start y m + 1 \<le> 31" by (simp_all add: m_def)
  then have date: "1 \<le> date" "date \<le> 31" "int date = diy - month_start y m + 1"
    by (simp_all add: date_def)
  have "0 \<le> t mod msPerDay" "t mod msPerDay < msPerDay"
    by (simp_all add: msPerDay_def)
  then have "(t mod msPerDay) div 1000 < 86400" "0 \<le> (t mod msPerDay) div 1000"
    by (simp_all add: msPerDay_def)
  then have secs: "secs < 86400" "int secs = (t mod msPerDay) div 1000"
    by (simp_all add: secs_def)
  then have hms: "secs div 3600 \<le> 23" "secs div 60 mod 60 \<le> 59" "secs mod 60 \<le> 59"
    by simp_all
  have y0: "0 \<le> YearFromDay (Day t)" using y by simp
  from toUTCString_shape [OF y0 y(2)] obtain w1 w2 w3 m1 m2 m3 where
    mi: "month_index [m1, m2, m3] = Some m" and
    sh: "toUTCString (Some t) =
             [w1, w2, w3, 0x2C, 0x20,
              digit_unit (date div 10 mod 10), digit_unit (date mod 10), 0x20,
              m1, m2, m3, 0x20,
              digit_unit (nat y div 1000), digit_unit (nat y div 100 mod 10),
              digit_unit (nat y div 10 mod 10), digit_unit (nat y mod 10), 0x20,
              digit_unit (secs div 3600 div 10 mod 10), digit_unit (secs div 3600 mod 10), 0x3A,
              digit_unit (secs div 60 mod 60 div 10 mod 10), digit_unit (secs div 60 mod 60 mod 10), 0x3A,
              digit_unit (secs mod 60 div 10 mod 10), digit_unit (secs mod 60 mod 10), 0x20,
              0x47, 0x4D, 0x54]"
    unfolding y_def diy_def m_def date_def secs_def by blast
  have dd: "decimal [digit_unit (date div 10 mod 10), digit_unit (date mod 10)] = Some date"
    using date by (intro decimal_2) simp
  have dy: "decimal [digit_unit (nat y div 1000), digit_unit (nat y div 100 mod 10),
              digit_unit (nat y div 10 mod 10), digit_unit (nat y mod 10)] = Some (nat y)"
    using y by (intro decimal_4) (simp add: y_def)
  have dh: "decimal [digit_unit (secs div 3600 div 10 mod 10), digit_unit (secs div 3600 mod 10)]
      = Some (secs div 3600)"
    using hms by (intro decimal_2) simp
  have dm: "decimal [digit_unit (secs div 60 mod 60 div 10 mod 10), digit_unit (secs div 60 mod 60 mod 10)]
      = Some (secs div 60 mod 60)"
    using hms by (intro decimal_2) simp
  have ds: "decimal [digit_unit (secs mod 60 div 10 mod 10), digit_unit (secs mod 60 mod 10)]
      = Some (secs mod 60)"
    using hms by (intro decimal_2) simp
  have p: "parse_cookie_date (toUTCString (Some t)) =
      cookie_date_value (Some date) (Some m) (Some (nat y)) (Some (secs div 3600))
        (Some (secs div 60 mod 60)) (Some (secs mod 60))"
  proof -
    have len: "length (toUTCString (Some t)) = 29"
      unfolding sh by simp
    show ?thesis
      unfolding parse_cookie_date_def len
      unfolding sh list.case dd dy dh dm ds mi
      by simp
  qed
  have ny: "\<not> nat y \<le> 99" "int (nat y) = y"
    using y unfolding y_def by linarith+
  then have yr: "int (if 70 \<le> nat y \<and> nat y \<le> 99 then nat y + 1900 else if nat y \<le> 69 then nat y + 2000 else nat y) = y"
    by simp
  have "int (secs div 3600 * 3600 + secs div 60 mod 60 * 60 + secs mod 60) = int secs"
    by (simp only: seconds_split)
  then have "int (secs div 3600) * 3600 + int (secs div 60 mod 60) * 60 + int (secs mod 60) = int secs"
    by simp
  then have tod: "(int (secs div 3600) * 3600 + int (secs div 60 mod 60) * 60 + int (secs mod 60)) * 1000
      = (t mod msPerDay) div 1000 * 1000"
    using secs by simp
  have day: "DayFromYear y + month_start y m + int date - 1 = Day t"
    using date by (simp add: diy_def)
  have "cookie_date_value (Some date) (Some m) (Some (nat y)) (Some (secs div 3600))
        (Some (secs div 60 mod 60)) (Some (secs mod 60))
      = Some (Day t * msPerDay + (t mod msPerDay) div 1000 * 1000)"
    unfolding cookie_date_value_def prod.case option.case Let_def yr tod day
    using date hms y by (simp add: y_def)
  with p show ?thesis by (simp add: truncate_seconds)
qed

lemma DayFromYear_mono_nat: "DayFromYear y \<le> DayFromYear (y + int k)"
proof (induction k)
  case 0
  then show ?case by simp
next
  case (Suc k)
  have e: "y + int (Suc k) = (y + int k) + 1" by simp
  have "DayFromYear (y + int k) \<le> DayFromYear ((y + int k) + 1)"
    unfolding DayFromYear_Suc by simp
  with Suc show ?case unfolding e by simp
qed

lemma DayFromYear_mono: "y1 \<le> y2 \<Longrightarrow> DayFromYear y1 \<le> DayFromYear y2"
  using DayFromYear_mono_nat [of y1 "nat (y2 - y1)"] by simp

lemma YearFromDay_ge_1970: "0 \<le> d \<Longrightarrow> 1970 \<le> YearFromDay d"
proof (rule ccontr)
  assume d: "0 \<le> d" and "\<not> 1970 \<le> YearFromDay d"
  then have "YearFromDay d + 1 \<le> 1970" by simp
  from DayFromYear_mono [OF this] have "DayFromYear (YearFromDay d + 1) \<le> 0"
    by (simp add: DayFromYear_1970)
  with YearFromDay_spec [of d] d show False by simp
qed

lemma length_nat_to_string_big: "10000 \<le> n \<Longrightarrow> 5 \<le> length (nat_to_string n)"
proof -
  assume n: "10000 \<le> n"
  have b: "n div 10 div 10 = n div 100" "n div 100 div 10 = n div 1000" "n div 1000 div 10 = n div 10000"
    by (simp_all add: div_mult2_eq)
  from n have "10 \<le> n" "10 \<le> n div 10" "10 \<le> n div 100" "10 \<le> n div 1000" by simp_all
  then have "nat_to_string n = nat_to_string (n div 10000) @ [digit_unit (n div 1000 mod 10),
      digit_unit (n div 100 mod 10), digit_unit (n div 10 mod 10), digit_unit (n mod 10)]"
    using nat_to_string_small(2) [of n] nat_to_string_small(2) [of "n div 10"]
      nat_to_string_small(2) [of "n div 100"] nat_to_string_small(2) [of "n div 1000"]
    by (simp add: b)
  then show ?thesis
    using nat_to_string_nonempty [of "n div 10000"]
    by (cases "nat_to_string (n div 10000)") simp_all
qed

lemma MonthFromDay_less: "MonthFromDay y diy < 12"
  by (simp add: MonthFromDay_def)

lemma length_names:
  "length (day_names ! nat ((d + 4) mod 7)) = 3" "length (month_names ! MonthFromDay y diy) = 3"
proof -
  have "nat ((d + 4) mod 7) < 7" by simp
  from day_name_cases [OF this] show "length (day_names ! nat ((d + 4) mod 7)) = 3" by auto
  from month_name_cases [OF MonthFromDay_less [of y diy]] show "length (month_names ! MonthFromDay y diy) = 3"
    by auto
qed

lemma set_pad2: "0x3B \<notin> set (pad2 n)"
proof -
  have "n div 10 mod 10 < 10" "n mod 10 < 10" by simp_all
  then show ?thesis
    using digit_unit_not_special [of "n div 10 mod 10"] digit_unit_not_special [of "n mod 10"]
    by (auto simp: pad2_def)
qed

lemma set_nat_to_string: "0x3B \<notin> set (nat_to_string n)"
proof
  assume "0x3B \<in> set (nat_to_string n)"
  with nat_to_string_digits [of n] obtain d where "d < 10" "0x3B = digit_unit d" by auto
  with digit_unit_not_special [of d] show False by simp
qed

lemma set_year_string: "0x3B \<notin> set (year_string y)"
  using set_nat_to_string by (auto simp: year_string_def Let_def ascii_def)

lemma toUTCString_parts:
  "\<exists>w dd mn hh mi ss.
     toUTCString (Some t) =
       w @ ascii '', '' @ dd @ ascii '' '' @ mn @ ascii '' '' @ year_string (YearFromDay (Day t))
       @ ascii '' '' @ hh @ ascii '':'' @ mi @ ascii '':'' @ ss @ ascii '' GMT''
     \<and> length w = 3 \<and> length dd = 2 \<and> length mn = 3 \<and> length hh = 2 \<and> length mi = 2
     \<and> length ss = 2 \<and> \<not> is_wsp (hd w)
     \<and> 0x3B \<notin> set w \<and> 0x3B \<notin> set dd \<and> 0x3B \<notin> set mn \<and> 0x3B \<notin> set hh
     \<and> 0x3B \<notin> set mi \<and> 0x3B \<notin> set ss"
proof -
  define d where "d = Day t"
  define y where "y = YearFromDay d"
  define m where "m = MonthFromDay y (d - DayFromYear y)"
  define secs where "secs = nat ((t mod msPerDay) div 1000)"
  have "nat ((d + 4) mod 7) < 7" by simp
  from day_name_cases [OF this] obtain w1 w2 w3 where
    w: "day_names ! nat ((d + 4) mod 7) = [w1, w2, w3]" "\<not> is_wsp w1"
      "w1 \<noteq> 0x3B" "w2 \<noteq> 0x3B" "w3 \<noteq> 0x3B" by blast
  have "m < 12" by (simp add: m_def MonthFromDay_less)
  from month_name_cases [OF this] obtain m1 m2 m3 where
    mn: "month_names ! m = [m1, m2, m3]" "m1 \<noteq> 0x3B" "m2 \<noteq> 0x3B" "m3 \<noteq> 0x3B" by blast
  have "toUTCString (Some t) =
      day_names ! nat ((d + 4) mod 7) @ ascii '', ''
      @ pad2 (nat (d - DayFromYear y - month_start y m + 1)) @ ascii '' ''
      @ month_names ! m @ ascii '' '' @ year_string y @ ascii '' ''
      @ pad2 (secs div 3600) @ ascii '':'' @ pad2 (secs div 60 mod 60) @ ascii '':''
      @ pad2 (secs mod 60) @ ascii '' GMT''"
    unfolding toUTCString_def Let_def option.case d_def y_def m_def secs_def by (rule refl)
  then have "toUTCString (Some t) =
      [w1, w2, w3] @ ascii '', ''
      @ pad2 (nat (d - DayFromYear y - month_start y m + 1)) @ ascii '' ''
      @ [m1, m2, m3] @ ascii '' '' @ year_string (YearFromDay (Day t)) @ ascii '' ''
      @ pad2 (secs div 3600) @ ascii '':'' @ pad2 (secs div 60 mod 60) @ ascii '':''
      @ pad2 (secs mod 60) @ ascii '' GMT''"
    unfolding w(1) mn(1) unfolding y_def d_def .
  moreover have "length (pad2 n) = 2" for n by (simp add: pad2_def)
  ultimately show ?thesis
    using w mn set_pad2 by (intro exI conjI) (assumption, simp_all)
qed

lemma parse_toUTCString_big_year:
  assumes "9999 < YearFromDay (Day t)"
  shows "parse_cookie_date (toUTCString (Some t)) = None"
proof -
  have "10000 \<le> nat \<bar>YearFromDay (Day t)\<bar>" using assms by simp
  from length_nat_to_string_big [OF this]
  have "5 \<le> length (year_string (YearFromDay (Day t)))"
    by (simp add: year_string_def Let_def)
  moreover from toUTCString_parts [of t] obtain w dd mn hh mi ss where
    "toUTCString (Some t) =
       w @ ascii '', '' @ dd @ ascii '' '' @ mn @ ascii '' '' @ year_string (YearFromDay (Day t))
       @ ascii '' '' @ hh @ ascii '':'' @ mi @ ascii '':'' @ ss @ ascii '' GMT''"
    "length w = 3" "length dd = 2" "length mn = 3" "length hh = 2" "length mi = 2" "length ss = 2"
    by blast
  ultimately have "length (toUTCString (Some t)) \<noteq> 29"
    by (simp add: ascii_def)
  then show ?thesis by (simp add: parse_cookie_date_def)
qed

lemma parse_Invalid_Date: "parse_cookie_date (toUTCString None) = None"
  by (simp add: parse_cookie_date_def toUTCString_def ascii_def)

text \<open>After the epoch, a date written for a later instant is never read as an instant that
  has passed: it is read back to the second, or not at all.\<close>

lemma expires_in_future:
  assumes "0 \<le> now" "1 \<le> seconds"
  shows "case parse_cookie_date (toUTCString (TimeClip (now + seconds * 1000))) of
           None \<Rightarrow> True | Some e \<Rightarrow> now < e"
proof (cases "TimeClip (now + seconds * 1000)")
  case None
  then show ?thesis by (simp add: parse_Invalid_Date)
next
  case (Some t)
  then have t: "t = now + seconds * 1000"
    by (simp add: TimeClip_def split: if_splits)
  with assms have "0 \<le> t" by simp
  then have "0 \<le> Day t" by (simp add: Day_def msPerDay_def)
  then have y: "1970 \<le> YearFromDay (Day t)" by (rule YearFromDay_ge_1970)
  show ?thesis
  proof (cases "YearFromDay (Day t) \<le> 9999")
    case True
    with y have "parse_cookie_date (toUTCString (Some t)) = Some (t - t mod 1000)"
      by (intro parse_toUTCString) simp_all
    moreover have "t mod 1000 < 1000" by simp
    ultimately show ?thesis using Some t assms by simp
  next
    case False
    then have "parse_cookie_date (toUTCString (Some t)) = None"
      by (intro parse_toUTCString_big_year) simp
    with Some show ?thesis by simp
  qed
qed

lemma wsp_trim_id:
  assumes "s \<noteq> []" "\<not> is_wsp (hd s)" "\<not> is_wsp (last s)"
  shows "wsp_trim s = s"
proof -
  from assms have "dropWhile is_wsp s = s" by (cases s) simp_all
  moreover from assms have "dropWhile is_wsp (rev s) = rev s"
    by (cases "rev s") (simp_all add: last_rev [symmetric] hd_rev)
  ultimately show ?thesis by (simp add: wsp_trim_def)
qed

lemma js_trim_id:
  assumes "s \<noteq> []" "\<not> is_js_whitespace (hd s)" "\<not> is_js_whitespace (last s)"
  shows "js_trim s = s"
proof -
  from assms have "dropWhile is_js_whitespace s = s" by (cases s) simp_all
  moreover from assms have "dropWhile is_js_whitespace (rev s) = rev s"
    by (cases "rev s") (simp_all add: last_rev [symmetric] hd_rev)
  ultimately show ?thesis by (simp add: js_trim_def)
qed

lemma toUTCString_text:
  "0x3B \<notin> set (toUTCString tv) \<and> wsp_trim (toUTCString tv) = toUTCString tv"
proof (cases tv)
  case None
  then show ?thesis
    by (simp add: toUTCString_def ascii_def wsp_trim_def is_wsp_def)
next
  case (Some t)
  from toUTCString_parts [of t] obtain w dd mn hh mi ss where
    u: "toUTCString (Some t) =
       w @ ascii '', '' @ dd @ ascii '' '' @ mn @ ascii '' '' @ year_string (YearFromDay (Day t))
       @ ascii '' '' @ hh @ ascii '':'' @ mi @ ascii '':'' @ ss @ ascii '' GMT''"
    and l: "length w = 3" "\<not> is_wsp (hd w)"
    and n: "0x3B \<notin> set w" "0x3B \<notin> set dd" "0x3B \<notin> set mn" "0x3B \<notin> set hh"
      "0x3B \<notin> set mi" "0x3B \<notin> set ss"
    by blast
  from l obtain w1 wr where w: "w = w1 # wr" "\<not> is_wsp w1" by (cases w) auto
  have a: "0x3B \<notin> set (toUTCString (Some t))"
    unfolding u using n set_year_string by (simp add: ascii_def)
  have "hd (toUTCString (Some t)) = w1" "last (toUTCString (Some t)) = 0x54"
    unfolding u w by (simp_all add: ascii_def)
  with w(2) have "wsp_trim (toUTCString (Some t)) = toUTCString (Some t)"
    by (intro wsp_trim_id) (simp_all add: is_wsp_def u w)
  with a Some show ?thesis by simp
qed

subsection \<open>What the browser makes of the strings the cookie module writes\<close>

lemma split_at_first_append:
  "sep \<notin> set a \<Longrightarrow> split_at_first sep (a @ sep # r) = (a, Some r)"
  by (simp add: split_at_first_def takeWhile_append2 dropWhile_append3 takeWhile_append dropWhile_append)

lemma js_split_no_sep: "sep \<notin> set p \<Longrightarrow> js_split sep p = [p]"
  by (induction p) auto

lemma js_split_append: "sep \<notin> set p \<Longrightarrow> js_split sep (p @ sep # r) = p # js_split sep r"
  by (induction p) auto

lemma last_dropWhile: "dropWhile P xs \<noteq> [] \<Longrightarrow> last (dropWhile P xs) = last xs"
  by (induction xs) (auto split: if_splits)

lemma trimmed_ends:
  assumes "rev (dropWhile P (rev (dropWhile P s))) = s" "s \<noteq> []"
  shows "\<not> P (hd s) \<and> \<not> P (last s)"
proof -
  define a where "a = dropWhile P s"
  define b where "b = dropWhile P (rev a)"
  from assms have s: "s = rev b" by (simp add: a_def b_def)
  with assms(2) have b: "b \<noteq> []" by simp
  then have a: "rev a \<noteq> []" by (auto simp: b_def)
  from b have "\<not> P (hd b)" unfolding b_def by (rule hd_dropWhile)
  then have l: "\<not> P (last s)" using s b by (simp add: last_rev)
  from b have "last b = last (rev a)" unfolding b_def by (rule last_dropWhile)
  then have "hd s = hd a" using s b a by (simp add: hd_rev last_rev)
  moreover have "\<not> P (hd a)"
  proof -
    from a have "a \<noteq> []" by simp
    then show ?thesis unfolding a_def by (rule hd_dropWhile)
  qed
  ultimately show ?thesis using l by simp
qed

lemma js_trim_ends: "js_trim s = s \<Longrightarrow> s \<noteq> [] \<Longrightarrow> \<not> is_js_whitespace (hd s) \<and> \<not> is_js_whitespace (last s)"
  unfolding js_trim_def by (rule trimmed_ends)

lemma is_wsp_js: "is_wsp c \<Longrightarrow> is_js_whitespace c"
  by (auto simp: is_wsp_def is_js_whitespace_def)

lemma js_trim_wsp_trim: "js_trim s = s \<Longrightarrow> wsp_trim s = s"
proof (cases "s = []")
  case True
  then show ?thesis by (simp add: wsp_trim_def)
next
  case False
  assume "js_trim s = s"
  from js_trim_ends [OF this False] is_wsp_js show ?thesis
    by (intro wsp_trim_id) (use False in auto)
qed

lemma av_expires_path: "av_expires (ascii ''path=/'') = None"
  by (simp add: av_expires_def split_at_first_def ascii_def wsp_trim_def is_wsp_def ascii_lower_def)

lemma av_expires_expires:
  "wsp_trim D = D \<Longrightarrow> av_expires (ascii ''expires='' @ D) = parse_cookie_date D"
proof -
  assume D: "wsp_trim D = D"
  have e: "ascii ''expires='' @ D = ascii ''expires'' @ 0x3D # D" by (simp add: ascii_def)
  have sp: "split_at_first 0x3D (ascii ''expires'' @ 0x3D # D) = (ascii ''expires'', Some D)"
    by (rule split_at_first_append) (simp add: ascii_def)
  have lw: "map ascii_lower (wsp_trim (ascii ''expires'')) = ascii ''expires''"
    by (simp add: ascii_def wsp_trim_def is_wsp_def ascii_lower_def)
  show ?thesis
    unfolding av_expires_def e sp prod.case lw option.case D by simp
qed

lemma parse_epoch: "parse_cookie_date (ascii ''Thu, 01 Jan 1970 00:00:00 UTC'') = Some 0"
  by (simp add: parse_cookie_date_def ascii_def decimal_def is_radix_digit_def digit_value_def
      digits_value_def month_index_def month_names_def ascii_lower_def cookie_date_value_def
      DayFromYear_def month_start_def msPerDay_def)

lemma assign_cookie_text:
  assumes n: "cookie_name_ok name" and v: "0x3B \<notin> set v"
    and D: "0x3B \<notin> set D" "wsp_trim D = D"
  shows "document_cookie_assign (name @ ascii ''='' @ v @ ascii '';expires='' @ D @ ascii '';path=/'') b =
     b\<lparr>cookies := filter (\<lambda>x. \<not> cookie_expired (clock b) x)
          (store_cookie \<lparr>ck_name = name, ck_value = wsp_trim v, ck_expires = parse_cookie_date D\<rparr>
             (cookies b))\<rparr>"
proof -
  have e: "name @ ascii ''='' @ v @ ascii '';expires='' @ D @ ascii '';path=/'' =
      (name @ 0x3D # v) @ 0x3B # ((ascii ''expires='' @ D) @ 0x3B # ascii ''path=/'')"
    by (simp add: ascii_def)
  have "0x3B \<notin> set (name @ 0x3D # v)"
    using n v by (simp add: cookie_name_ok_def)
  then have s1: "split_at_first 0x3B ((name @ 0x3D # v) @ 0x3B # ((ascii ''expires='' @ D) @ 0x3B # ascii ''path=/''))
      = (name @ 0x3D # v, Some ((ascii ''expires='' @ D) @ 0x3B # ascii ''path=/''))"
    by (rule split_at_first_append)
  have s2: "split_at_first 0x3D (name @ 0x3D # v) = (name, Some v)"
    using n by (intro split_at_first_append) (simp add: cookie_name_ok_def)
  have "0x3B \<notin> set (ascii ''expires='' @ D)"
    using D by (simp add: ascii_def)
  then have "js_split 0x3B ((ascii ''expires='' @ D) @ 0x3B # ascii ''path=/'')
      = (ascii ''expires='' @ D) # js_split 0x3B (ascii ''path=/'')"
    by (rule js_split_append)
  moreover have "js_split 0x3B (ascii ''path=/'') = [ascii ''path=/'']"
    by (simp add: ascii_def)
  ultimately have s3: "js_split 0x3B ((ascii ''expires='' @ D) @ 0x3B # ascii ''path=/'')
      = [ascii ''expires='' @ D, ascii ''path=/'']"
    by simp
  have s4: "expires_of [ascii ''expires='' @ D, ascii ''path=/''] = parse_cookie_date D"
    by (simp add: av_expires_path av_expires_expires [OF D(2)])
  have s5: "wsp_trim name = name" "name \<noteq> []"
    using n by (simp_all add: cookie_name_ok_def js_trim_wsp_trim)
  show ?thesis
    unfolding e document_cookie_assign_def s1 prod.case s2 option.case s3 s4 Let_def
    using s5 by simp
qed

lemma setCookie_assign:
  assumes "cookie_name_ok name" "0x3B \<notin> set v"
  shows "setCookie name v seconds b =
     b\<lparr>cookies := filter (\<lambda>x. \<not> cookie_expired (clock b) x)
          (store_cookie \<lparr>ck_name = name, ck_value = wsp_trim v,
             ck_expires = parse_cookie_date (toUTCString (TimeClip (clock b + seconds * 1000)))\<rparr>
             (cookies b))\<rparr>"
  unfolding setCookie_def setCookie_text_def Let_def
  using toUTCString_text [of "TimeClip (clock b + seconds * 1000)"]
  by (intro assign_cookie_text assms) simp_all

lemma deleteCookie_assign:
  assumes "cookie_name_ok name"
  shows "deleteCookie name b =
     b\<lparr>cookies := filter (\<lambda>x. \<not> cookie_expired (clock b) x)
          (store_cookie \<lparr>ck_name = name, ck_value = [], ck_expires = Some 0\<rparr> (cookies b))\<rparr>"
proof -
  have e: "name @ ascii ''=;expires=Thu, 01 Jan 1970 00:00:00 UTC;path=/'' =
      name @ ascii ''='' @ [] @ ascii '';expires='' @ ascii ''Thu, 01 Jan 1970 00:00:00 UTC'' @ ascii '';path=/''"
    by (simp add: ascii_def)
  have "0x3B \<notin> set (ascii ''Thu, 01 Jan 1970 00:00:00 UTC'')"
    "wsp_trim (ascii ''Thu, 01 Jan 1970 00:00:00 UTC'') = ascii ''Thu, 01 Jan 1970 00:00:00 UTC''"
    by (simp_all add: ascii_def wsp_trim_def is_wsp_def)
  from assign_cookie_text [OF assms _ this, of "[]" b] show ?thesis
    unfolding deleteCookie_def e by (simp add: parse_epoch wsp_trim_def)
qed

subsection \<open>Reading a cookie back from \<open>document.cookie\<close>\<close>

lemma js_split_join:
  "\<forall>p \<in> set ps. 0x3B \<notin> set p \<Longrightarrow>
   js_split 0x3B (js_join [0x3B, 0x20] ps) = (case ps of [] \<Rightarrow> [[]] | p # r \<Rightarrow> p # map ((#) 0x20) r)"
proof (induction "[0x3B, 0x20 :: code_unit]" ps rule: js_join.induct)
  case 1
  then show ?case by simp
next
  case (2 p)
  then show ?case by (simp add: js_split_no_sep)
next
  case (3 p q ps)
  then have "js_split 0x3B (js_join [0x3B, 0x20] (q # ps)) = q # map ((#) 0x20) ps"
    by simp
  with 3 show ?case by (simp add: js_split_append)
qed

lemma js_indexOf_0: "js_indexOf s p = 0 \<longleftrightarrow> prefix p s"
  by (cases s) (auto simp: Let_def)

lemma prefix_name_eq:
  "0x3D \<notin> set a \<Longrightarrow> 0x3D \<notin> set b \<Longrightarrow> prefix (a @ [0x3D]) (b @ 0x3D # v) \<longleftrightarrow> a = b"
proof (induction a arbitrary: b)
  case Nil
  then show ?case by (cases b) auto
next
  case (Cons x a)
  then show ?case by (cases b) auto
qed

lemma js_trim_pair:
  assumes "n \<noteq> []" "\<not> is_js_whitespace (hd n)"
  shows "js_trim (n @ 0x3D # v) = n @ 0x3D # js_trimEnd v"
    and "js_trim (0x20 # n @ 0x3D # v) = n @ 0x3D # js_trimEnd v"
proof -
  have eq: "\<not> is_js_whitespace 0x3D" "is_js_whitespace 0x20" by (simp_all add: is_js_whitespace_def)
  from assms have d: "dropWhile is_js_whitespace (n @ 0x3D # v) = n @ 0x3D # v"
    by (cases n) simp_all
  have r: "dropWhile is_js_whitespace (rev v @ 0x3D # rev n) = dropWhile is_js_whitespace (rev v) @ 0x3D # rev n"
    using eq by (simp add: dropWhile_append)
  show "js_trim (n @ 0x3D # v) = n @ 0x3D # js_trimEnd v"
    by (simp add: js_trim_def js_trimEnd_def d r)
  then show "js_trim (0x20 # n @ 0x3D # v) = n @ 0x3D # js_trimEnd v"
    using eq by (simp add: js_trim_def)
qed

lemma cookie_pair_no_semicolon:
  "cookie_name_ok (ck_name c) \<Longrightarrow> 0x3B \<notin> set (ck_value c) \<Longrightarrow> 0x3B \<notin> set (cookie_pair c)"
  by (simp add: cookie_pair_def cookie_name_ok_def ascii_def)

lemma getCookie_loop_piece:
  assumes "cookie_name_ok (ck_name c)" "0x3D \<notin> set name"
  shows "getCookie_loop (name @ ascii ''='') (cookie_pair c # rest) =
           (if ck_name c = name then Some (js_trimEnd (ck_value c))
            else getCookie_loop (name @ ascii ''='') rest)"
    and "getCookie_loop (name @ ascii ''='') ((0x20 # cookie_pair c) # rest) =
           (if ck_name c = name then Some (js_trimEnd (ck_value c))
            else getCookie_loop (name @ ascii ''='') rest)"
proof -
  from assms(1) have n: "ck_name c \<noteq> []" "0x3D \<notin> set (ck_name c)" "js_trim (ck_name c) = ck_name c"
    by (simp_all add: cookie_name_ok_def)
  from js_trim_ends [OF n(3) n(1)] have h: "\<not> is_js_whitespace (hd (ck_name c))" by simp
  have p: "cookie_pair c = ck_name c @ 0x3D # ck_value c" "name @ ascii ''='' = name @ [0x3D]"
    by (simp_all add: cookie_pair_def ascii_def)
  have t: "js_trim (cookie_pair c) = ck_name c @ 0x3D # js_trimEnd (ck_value c)"
    "js_trim (0x20 # cookie_pair c) = ck_name c @ 0x3D # js_trimEnd (ck_value c)"
    unfolding p using js_trim_pair [OF n(1) h] by simp_all
  have i: "js_indexOf (ck_name c @ 0x3D # js_trimEnd (ck_value c)) (name @ [0x3D]) = 0 \<longleftrightarrow> name = ck_name c"
    using prefix_name_eq [OF assms(2) n(2)] by (simp add: js_indexOf_0)
  have s: "js_substring (name @ 0x3D # v) (length (name @ [0x3D])) = v" for v
    by (simp add: js_substring_def)
  show "getCookie_loop (name @ ascii ''='') (cookie_pair c # rest) =
           (if ck_name c = name then Some (js_trimEnd (ck_value c))
            else getCookie_loop (name @ ascii ''='') rest)"
    unfolding getCookie_loop.simps t Let_def p(2) i using s by auto
  show "getCookie_loop (name @ ascii ''='') ((0x20 # cookie_pair c) # rest) =
           (if ck_name c = name then Some (js_trimEnd (ck_value c))
            else getCookie_loop (name @ ascii ''='') rest)"
    unfolding getCookie_loop.simps t Let_def p(2) i using s by auto
qed

lemma getCookie_loop_rest:
  assumes "list_all (\<lambda>c. cookie_name_ok (ck_name c)) cs" "0x3D \<notin> set name"
  shows "getCookie_loop (name @ ascii ''='') (map ((#) 0x20) (map cookie_pair cs)) =
           map_option (\<lambda>c. js_trimEnd (ck_value c)) (find (\<lambda>c. ck_name c = name) cs)"
  using assms(1)
proof (induction cs)
  case Nil
  then show ?case by simp
next
  case (Cons c cs)
  then show ?case
    using getCookie_loop_piece(2) [of c name] assms(2) by simp
qed

lemma getCookie_loop_pieces:
  assumes "list_all (\<lambda>c. cookie_name_ok (ck_name c)) cs" "0x3D \<notin> set name"
  shows "getCookie_loop (name @ ascii ''='')
           (case map cookie_pair cs of [] \<Rightarrow> [[]] | p # r \<Rightarrow> p # map ((#) 0x20) r) =
           map_option (\<lambda>c. js_trimEnd (ck_value c)) (find (\<lambda>c. ck_name c = name) cs)"
proof (cases cs)
  case Nil
  then show ?thesis by (simp add: js_trim_def ascii_def)
next
  case (Cons c r)
  with assms show ?thesis
    using getCookie_loop_piece(1) [of c name] getCookie_loop_rest [of r name] by simp
qed

lemma jar_ok_filter: "jar_ok cs \<Longrightarrow> jar_ok (filter P cs)"
  by (auto simp: jar_ok_def list_all_iff distinct_map_filter)

lemma getCookie_stored:
  assumes "jar_ok (cookies b)" "0x3D \<notin> set name"
  shows "getCookie name b = map_option js_trimEnd (stored_value name b)"
proof -
  define live where "live = filter (\<lambda>c. \<not> cookie_expired (clock b) c) (cookies b)"
  from assms(1) have ok: "jar_ok live" unfolding live_def by (rule jar_ok_filter)
  then have names: "list_all (\<lambda>c. cookie_name_ok (ck_name c)) live"
    by (auto simp: jar_ok_def list_all_iff)
  from ok have "\<forall>p \<in> set (map cookie_pair live). 0x3B \<notin> set p"
    by (auto simp: jar_ok_def list_all_iff cookie_pair_no_semicolon)
  from js_split_join [OF this]
  have "js_split 0x3B (document_cookie b) =
      (case map cookie_pair live of [] \<Rightarrow> [[]] | p # r \<Rightarrow> p # map ((#) 0x20) r)"
    by (simp add: document_cookie_def live_def ascii_def)
  then have "getCookie name b = map_option (\<lambda>c. js_trimEnd (ck_value c)) (find (\<lambda>c. ck_name c = name) live)"
    using getCookie_loop_pieces [OF names assms(2)] by (simp add: getCookie_def Let_def)
  then show ?thesis
    by (simp add: stored_value_def live_def option.map_comp comp_def)
qed

lemma js_trimEnd_id: "js_trim v = v \<Longrightarrow> js_trimEnd v = v"
proof (cases "v = []")
  case True
  then show ?thesis by (simp add: js_trimEnd_def)
next
  case False
  assume "js_trim v = v"
  from js_trim_ends [OF this False] have "\<not> is_js_whitespace (last v)" by simp
  with False have "dropWhile is_js_whitespace (rev v) = rev v"
    by (cases "rev v") (simp_all add: last_rev [symmetric] hd_rev)
  then show ?thesis by (simp add: js_trimEnd_def)
qed

lemma find_store_cookie:
  "find (\<lambda>x. ck_name x = ck_name c) (store_cookie c cs) = Some c"
  by (induction cs) auto

lemma find_store_cookie_other:
  "n \<noteq> ck_name c \<Longrightarrow> find (\<lambda>x. ck_name x = n) (store_cookie c cs) = find (\<lambda>x. ck_name x = n) cs"
  by (induction cs) auto

lemma find_filter_keep:
  "find Q cs = Some c \<Longrightarrow> P c \<Longrightarrow> find Q (filter P cs) = Some c"
  by (induction cs) (auto split: if_splits)

lemma names_store_cookie:
  "set (map ck_name (store_cookie c cs)) = insert (ck_name c) (set (map ck_name cs))"
  by (induction cs) auto

lemma distinct_store_cookie:
  "distinct (map ck_name cs) \<Longrightarrow> distinct (map ck_name (store_cookie c cs))"
proof (induction cs)
  case Nil
  then show ?case by simp
next
  case (Cons x cs)
  then show ?case
    using names_store_cookie [of c cs] by (auto simp del: set_map)
qed

lemma set_store_cookie: "set (store_cookie c cs) \<subseteq> insert c (set cs)"
  by (induction cs) auto

lemma jar_ok_store:
  assumes "jar_ok cs" "cookie_name_ok (ck_name c)" "0x3B \<notin> set (ck_value c)"
  shows "jar_ok (store_cookie c cs)"
  using assms set_store_cookie [of c cs] distinct_store_cookie [of cs c]
  by (auto simp: jar_ok_def list_all_iff)

lemma wsp_trim_set: "set (wsp_trim v) \<subseteq> set v"
proof -
  have "set (dropWhile P xs) \<subseteq> set xs" for P and xs :: jsstring
    by (meson set_dropWhileD subsetI)
  then show ?thesis
    unfolding wsp_trim_def by (metis set_rev subset_trans)
qed

end
